theory Spec2Isabelle
  imports Main "HOL-Library.AList"
begin

section \<open>JavaScript values\<close>

text \<open>
  The values the query builder of \<^verbatim>\<open>src/query/Query.ts\<close> handles are dynamically typed.
  Numbers are modelled as integers, with \<open>JNaN\<close> kept apart because strict equality
  and \<^verbatim>\<open>Array.prototype.includes\<close> treat it differently. A plain object is the list of
  its own properties in enumeration order; an array is the list of its items.
  Objects and arrays carry no identity here: two of them are never the same reference.
\<close>

datatype jsval =
    JUndefined
  | JNull
  | JBool bool
  | JNum int
  | JNaN
  | JStr string
  | JArr "jsval list"
  | JObj "(string \<times> jsval) list"

text \<open>\<^verbatim>\<open>Element = Record<string, any>\<close> and \<^verbatim>\<open>Elements = Record<string, Element>\<close> of
  \<^verbatim>\<open>data/Data\<close>. A model instance is represented by its own properties as well.\<close>

type_synonym element = "(string \<times> jsval) list"
type_synonym elements = "(string \<times> element) list"

text \<open>\<^verbatim>\<open>obj[key]\<close>: a missing property reads as \<^verbatim>\<open>undefined\<close>.\<close>

definition getProp :: "element \<Rightarrow> string \<Rightarrow> jsval" where
  "getProp obj key = (case map_of obj key of None \<Rightarrow> JUndefined | Some v \<Rightarrow> v)"

text \<open>\<^verbatim>\<open>obj[key] = v\<close>: an existing property keeps its place, a new one is added last.\<close>

definition setProp :: "(string \<times> 'a) list \<Rightarrow> string \<Rightarrow> 'a \<Rightarrow> (string \<times> 'a) list" where
  "setProp obj key v = AList.update key v obj"

text \<open>The object spread \<^verbatim>\<open>{ ...a, ...b }\<close>.\<close>

definition spread :: "element \<Rightarrow> element \<Rightarrow> element" where
  "spread a b = fold (\<lambda>(k, v) acc. setProp acc k v) b a"

text \<open>Arrays and objects are compared by reference.\<close>

fun isObject :: "jsval \<Rightarrow> bool" where
  "isObject (JArr _) = True"
| "isObject (JObj _) = True"
| "isObject _ = False"

text \<open>\<^verbatim>\<open>a === b\<close>: \<^verbatim>\<open>NaN\<close> equals nothing, and no two objects here are the same
  reference.\<close>

definition strictEquals :: "jsval \<Rightarrow> jsval \<Rightarrow> bool" where
  "strictEquals a b = (a \<noteq> JNaN \<and> \<not> isObject a \<and> a = b)"

text \<open>SameValueZero, the comparison of \<^verbatim>\<open>Array.prototype.includes\<close>: as \<^verbatim>\<open>===\<close>,
  but \<^verbatim>\<open>NaN\<close> is the same as \<^verbatim>\<open>NaN\<close>.\<close>

definition sameValueZero :: "jsval \<Rightarrow> jsval \<Rightarrow> bool" where
  "sameValueZero a b = (\<not> isObject a \<and> a = b)"

text \<open>\<^verbatim>\<open>xs.includes(v)\<close>.\<close>

definition arrayIncludes :: "jsval list \<Rightarrow> jsval \<Rightarrow> bool" where
  "arrayIncludes xs v = list_ex (\<lambda>x. sameValueZero x v) xs"

text \<open>Truthiness, as \<^verbatim>\<open>!v\<close> reads it.\<close>

fun truthy :: "jsval \<Rightarrow> bool" where
  "truthy JUndefined = False"
| "truthy JNull = False"
| "truthy (JBool b) = b"
| "truthy (JNum n) = (n \<noteq> 0)"
| "truthy JNaN = False"
| "truthy (JStr s) = (s \<noteq> [])"
| "truthy (JArr _) = True"
| "truthy (JObj _) = True"

fun isArray :: "jsval \<Rightarrow> bool" where
  "isArray (JArr _) = True"
| "isArray _ = False"

text \<open>\<^verbatim>\<open>xs.indexOf(v)\<close> on a list of booleans.\<close>

fun indexOf :: "bool list \<Rightarrow> bool \<Rightarrow> int" where
  "indexOf [] v = - 1"
| "indexOf (x # xs) v =
     (if x = v then 0 else (let i = indexOf xs v in if i = - 1 then - 1 else i + 1))"

text \<open>\<^verbatim>\<open>xs.slice(start, end)\<close> and \<^verbatim>\<open>xs.slice(start)\<close>: a negative index counts from
  the end, and both indices are clamped to the array.\<close>

definition relativeIndex :: "nat \<Rightarrow> int \<Rightarrow> nat" where
  "relativeIndex len i = (if i < 0 then nat (max (int len + i) 0) else min (nat i) len)"

definition slice :: "'a list \<Rightarrow> int \<Rightarrow> int \<Rightarrow> 'a list" where
  "slice xs start stop =
     (let k = relativeIndex (length xs) start;
          final = relativeIndex (length xs) stop
      in take (final - k) (drop k xs))"

definition sliceFrom :: "'a list \<Rightarrow> int \<Rightarrow> 'a list" where
  "sliceFrom xs start = drop (relativeIndex (length xs) start) xs"

section \<open>Helpers of \<^verbatim>\<open>support/Utils\<close>\<close>

text \<open>Modelled from the spec: \<^verbatim>\<open>isEmpty\<close> of \<^verbatim>\<open>support/Utils\<close> is not among the sources.
  It is applied to arrays only.\<close>

definition isEmpty :: "'a list \<Rightarrow> bool" where
  "isEmpty xs = (length xs = 0)"

text \<open>Modelled from the spec: \<^verbatim>\<open>groupBy\<close> of \<^verbatim>\<open>support/Utils\<close> is not among the sources.
  Section 4.1: the clauses are partitioned by their connector; a key no clause has is
  absent from the result.\<close>

definition groupBy :: "'a list \<Rightarrow> ('a \<Rightarrow> 'k) \<Rightarrow> ('k \<rightharpoonup> 'a list)" where
  "groupBy xs f =
     fold (\<lambda>x g. g(f x \<mapsto> (case g (f x) of None \<Rightarrow> [] | Some ys \<Rightarrow> ys) @ [x])) xs Map.empty"

datatype error = Error "string list" | RelationNotFound string | TypeError

text \<open>Modelled from the spec: \<^verbatim>\<open>assert\<close> of \<^verbatim>\<open>support/Utils\<close> is not among the sources.
  Section 7: a failed assertion raises an error carrying the message.\<close>

definition assert :: "bool \<Rightarrow> string list \<Rightarrow> error option" where
  "assert condition message = (if condition then None else Some (Error message))"

section \<open>Query options (\<^verbatim>\<open>query/Options\<close>)\<close>

text \<open>The field slot of a where clause is a closure over the model or a field name.
  \<^verbatim>\<open>whereId\<close> passes the result of \<^verbatim>\<open>$getKeyName()\<close> through an \<^verbatim>\<open>as any\<close> cast, so the
  slot can also hold the array of names of a composite key.\<close>

datatype wfield =
    FieldClosure "element \<Rightarrow> bool"
  | FieldName string
  | FieldNames "string list"

text \<open>The value slot is a closure over the field's value or any value.\<close>

datatype wvalue =
    ValueClosure "jsval \<Rightarrow> bool"
  | Value jsval

datatype connector = And | Or

record where_clause =
  w_field :: wfield
  w_value :: wvalue
  w_boolean :: connector

datatype ofield =
    OrderField string
  | OrderClosure "element \<Rightarrow> jsval"

datatype direction = Asc | Desc

record order =
  o_field :: ofield
  o_direction :: direction

text \<open>An eager-load constraint is a closure over the sub-query. The closures are
  represented by what they do: nothing (the default \<^verbatim>\<open>() => {}\<close>), the closure that
  \<^verbatim>\<open>withAllRecursive\<close> builds around its \<^verbatim>\<open>depth\<close>, or a caller's closure, given as the
  chain methods it calls on the sub-query in turn.\<close>

datatype chain_call =
    CallWhere wfield wvalue
  | CallWhereIn string "jsval list"
  | CallWhereId jsval
  | CallOrWhere wfield wvalue
  | CallOrderBy ofield direction
  | CallLimit int
  | CallOffset int
  | CallWith string constraint
  | CallWithAll constraint
  | CallWithAllRecursive int
and constraint =
    NoConstraint
  | RecursiveConstraint int
  | Callback "chain_call list"

section \<open>The query and its collaborators\<close>

text \<open>The fields of the class \<^verbatim>\<open>Query\<close>. The query holds the entity name of its model;
  the model itself is looked up in the database.\<close>

record query =
  entity :: string
  wheres :: "where_clause list"
  orders :: "order list"
  take_q :: "int option"
  skip_q :: int
  eagerLoad :: "(string \<times> constraint) list"

text \<open>The constructor, with the field initialisers of the class.\<close>

definition Query :: "string \<Rightarrow> query" where
  "Query e = \<lparr>entity = e, wheres = [], orders = [], take_q = None, skip_q = 0, eagerLoad = []\<rparr>"

text \<open>\<^verbatim>\<open>Relation\<close> (\<^verbatim>\<open>model/attributes/relations/Relation\<close>) is not among the sources: its
  operations are parameters. \<open>getEager\<close> reads the store, an entity's records by name.\<close>

record relation =
  related :: string
  addEagerConstraints :: "query \<Rightarrow> element list \<Rightarrow> query"
  getEager :: "(string \<Rightarrow> elements) \<Rightarrow> query \<Rightarrow> element list"
  match :: "string \<Rightarrow> element list \<Rightarrow> element list \<Rightarrow> element list"

datatype attr = Attribute | Relation relation

fun isRelation :: "attr \<Rightarrow> bool" where
  "isRelation (Relation _) = True"
| "isRelation Attribute = False"

datatype key_name = KeySingle string | KeyComposite "string list"

text \<open>\<^verbatim>\<open>Model\<close> (\<^verbatim>\<open>model/Model\<close>) is not among the sources: what the query asks of it are
  parameters, named as in section 6 of the spec.\<close>

record model_meta =
  modelFields :: "(string \<times> attr) list"
  getKeyName :: key_name
  newInstance :: "element \<Rightarrow> element"
  getAttributes :: "element \<Rightarrow> element"
  getIndexId :: "jsval \<Rightarrow> string"

text \<open>Modelled from the spec: \<^verbatim>\<open>$hasCompositeKey\<close> of \<^verbatim>\<open>Model\<close> is not among the sources.
  The key is composite when its name is a list of names.\<close>

fun hasCompositeKey :: "model_meta \<Rightarrow> bool" where
  "hasCompositeKey m = (case getKeyName m of KeyComposite _ \<Rightarrow> True | KeySingle _ \<Rightarrow> False)"

text \<open>Modelled from the spec: \<^verbatim>\<open>$getRelation\<close> of \<^verbatim>\<open>Model\<close> is not among the sources.
  Section 6 gives \<^verbatim>\<open>getRelation(name) -> Relation\<close>, and section 7 lets malformed
  input propagate as an error: a name that is no relation field raises.\<close>

definition getRelation :: "model_meta \<Rightarrow> string \<Rightarrow> error + relation" where
  "getRelation m name =
     (case map_of (modelFields m) name of
        Some (Relation r) \<Rightarrow> Inr r
      | _ \<Rightarrow> Inl (RelationNotFound name))"

text \<open>The database: the registered models and, per entity, the records of the store.\<close>

record database =
  models :: "string \<Rightarrow> model_meta"
  store :: "string \<Rightarrow> elements"

text \<open>Modelled from the spec: \<^verbatim>\<open>Connection\<close> (\<^verbatim>\<open>connection/Connection\<close>) is not among
  the sources. Section 6: \<^verbatim>\<open>get\<close> returns the entity's record map, \<^verbatim>\<open>find\<close> the record
  of an id or nothing, \<^verbatim>\<open>save\<close> is a merging batched write, \<^verbatim>\<open>destroy\<close> removes the
  records of the given ids.\<close>

definition conn_get :: "database \<Rightarrow> string \<Rightarrow> elements" where
  "conn_get db e = store db e"

definition conn_find :: "database \<Rightarrow> string \<Rightarrow> string \<Rightarrow> element option" where
  "conn_find db e i = map_of (store db e) i"

definition conn_save :: "database \<Rightarrow> string \<Rightarrow> elements \<Rightarrow> database" where
  "conn_save db e records =
     db\<lparr>store := (store db)(e := fold (\<lambda>(i, r) acc. setProp acc i r) records (store db e))\<rparr>"

definition conn_destroy :: "database \<Rightarrow> string \<Rightarrow> string list \<Rightarrow> database" where
  "conn_destroy db e ids =
     db\<lparr>store := (store db)(e := filter (\<lambda>(i, r). i \<notin> set ids) (store db e))\<rparr>"

section \<open>Sorting (\<^verbatim>\<open>support/Utils\<close>)\<close>

text \<open>Modelled from the spec: \<^verbatim>\<open>orderBy\<close> of \<^verbatim>\<open>support/Utils\<close> is not among the sources.
  Section 4.2: the sort is stable, its keys are field names or selector closures taken
  in call order, each with a direction of its own. Two numbers compare by size and two
  strings by their characters; other pairs of values leave the order as it is.\<close>

fun stringLess :: "string \<Rightarrow> string \<Rightarrow> bool" where
  "stringLess [] [] = False"
| "stringLess [] (y # ys) = True"
| "stringLess (x # xs) [] = False"
| "stringLess (x # xs) (y # ys) =
     ((of_char x :: nat) < of_char y \<or> (x = y \<and> stringLess xs ys))"

fun compareAscending :: "jsval \<Rightarrow> jsval \<Rightarrow> int" where
  "compareAscending (JNum a) (JNum b) = (if a < b then - 1 else if b < a then 1 else 0)"
| "compareAscending (JStr a) (JStr b) =
     (if stringLess a b then - 1 else if stringLess b a then 1 else 0)"
| "compareAscending _ _ = 0"

fun criterion :: "ofield \<Rightarrow> element \<Rightarrow> jsval" where
  "criterion (OrderField name) record = getProp record name"
| "criterion (OrderClosure f) record = f record"

fun compareMultiple :: "(ofield \<times> direction) list \<Rightarrow> element \<Rightarrow> element \<Rightarrow> int" where
  "compareMultiple [] a b = 0"
| "compareMultiple ((f, d) # rest) a b =
     (let c = compareAscending (criterion f a) (criterion f b)
      in if c \<noteq> 0 then (if d = Desc then - c else c) else compareMultiple rest a b)"

fun insertSorted :: "('a \<Rightarrow> 'a \<Rightarrow> int) \<Rightarrow> 'a \<Rightarrow> 'a list \<Rightarrow> 'a list" where
  "insertSorted cmp x [] = [x]"
| "insertSorted cmp x (y # ys) =
     (if cmp x y \<le> 0 then x # y # ys else y # insertSorted cmp x ys)"

fun stableSort :: "('a \<Rightarrow> 'a \<Rightarrow> int) \<Rightarrow> 'a list \<Rightarrow> 'a list" where
  "stableSort cmp [] = []"
| "stableSort cmp (x # xs) = insertSorted cmp x (stableSort cmp xs)"

definition orderBy :: "element list \<Rightarrow> ofield list \<Rightarrow> direction list \<Rightarrow> element list" where
  "orderBy collection iteratees directions =
     stableSort (compareMultiple (zip iteratees directions)) collection"

section \<open>Chain methods\<close>

text \<open>Each chain method updates the query and returns it; here it returns the updated
  query. \<open>where_q\<close>, \<open>orderBy_q\<close> and \<open>with_q\<close> are the methods \<^verbatim>\<open>where\<close>, \<^verbatim>\<open>orderBy\<close>
  and \<^verbatim>\<open>with\<close>.\<close>

definition where_q :: "wfield \<Rightarrow> wvalue \<Rightarrow> query \<Rightarrow> query" where
  "where_q f v q = q\<lparr>wheres := wheres q @ [\<lparr>w_field = f, w_value = v, w_boolean = And\<rparr>]\<rparr>"

definition whereIn :: "string \<Rightarrow> jsval list \<Rightarrow> query \<Rightarrow> query" where
  "whereIn f values q =
     q\<lparr>wheres := wheres q @ [\<lparr>w_field = FieldName f, w_value = Value (JArr values), w_boolean = And\<rparr>]\<rparr>"

text \<open>The key name as it lands in the field slot of the clause.\<close>

fun keyField :: "key_name \<Rightarrow> wfield" where
  "keyField (KeySingle k) = FieldName k"
| "keyField (KeyComposite ks) = FieldNames ks"

definition whereId :: "database \<Rightarrow> jsval \<Rightarrow> query \<Rightarrow> query" where
  "whereId db ids q = where_q (keyField (getKeyName (models db (entity q)))) (Value ids) q"

definition orWhere :: "wfield \<Rightarrow> wvalue \<Rightarrow> query \<Rightarrow> query" where
  "orWhere f v q = q\<lparr>wheres := wheres q @ [\<lparr>w_field = f, w_value = v, w_boolean = Or\<rparr>]\<rparr>"

definition orderBy_q :: "ofield \<Rightarrow> direction \<Rightarrow> query \<Rightarrow> query" where
  "orderBy_q f d q = q\<lparr>orders := orders q @ [\<lparr>o_field = f, o_direction = d\<rparr>]\<rparr>"

definition limit :: "int \<Rightarrow> query \<Rightarrow> query" where
  "limit v q = q\<lparr>take_q := Some v\<rparr>"

definition offset :: "int \<Rightarrow> query \<Rightarrow> query" where
  "offset v q = q\<lparr>skip_q := v\<rparr>"

definition with_q :: "string \<Rightarrow> constraint \<Rightarrow> query \<Rightarrow> query" where
  "with_q name callback q = q\<lparr>eagerLoad := setProp (eagerLoad q) name callback\<rparr>"

definition withAll :: "database \<Rightarrow> constraint \<Rightarrow> query \<Rightarrow> query" where
  "withAll db callback q =
     fold (\<lambda>(name, a) q'. if isRelation a then with_q name callback q' else q')
       (modelFields (models db (entity q))) q"

definition withAllRecursive :: "database \<Rightarrow> int \<Rightarrow> query \<Rightarrow> query" where
  "withAllRecursive db depth q = withAll db (RecursiveConstraint depth) q"

text \<open>Running a constraint on a sub-query: the call \<^verbatim>\<open>constraints(query)\<close>. The closure of
  \<^verbatim>\<open>withAllRecursive\<close> is \<^verbatim>\<open>(query) => { depth > 0 && query.withAllRecursive(depth - 1) }\<close>.\<close>

fun applyCall :: "database \<Rightarrow> chain_call \<Rightarrow> query \<Rightarrow> query" where
  "applyCall db (CallWhere f v) q = where_q f v q"
| "applyCall db (CallWhereIn f values) q = whereIn f values q"
| "applyCall db (CallWhereId ids) q = whereId db ids q"
| "applyCall db (CallOrWhere f v) q = orWhere f v q"
| "applyCall db (CallOrderBy f d) q = orderBy_q f d q"
| "applyCall db (CallLimit v) q = limit v q"
| "applyCall db (CallOffset v) q = offset v q"
| "applyCall db (CallWith name c) q = with_q name c q"
| "applyCall db (CallWithAll c) q = withAll db c q"
| "applyCall db (CallWithAllRecursive depth) q = withAllRecursive db depth q"

definition applyConstraint :: "database \<Rightarrow> constraint \<Rightarrow> query \<Rightarrow> query" where
  "applyConstraint db c q =
     (case c of
        NoConstraint \<Rightarrow> q
      | RecursiveConstraint depth \<Rightarrow> (if depth > 0 then withAllRecursive db (depth - 1) q else q)
      | Callback calls \<Rightarrow> fold (applyCall db) calls q)"

section \<open>Retrieval\<close>

definition newQueryForRelation :: "relation \<Rightarrow> query" where
  "newQueryForRelation r = Query (related r)"

text \<open>\<^verbatim>\<open>hydrate\<close> on a single record: \<^verbatim>\<open>$newInstance(record, { relations: false })\<close>.
  Its form for an array of records serves \<^verbatim>\<open>insert\<close> and \<^verbatim>\<open>fresh\<close> only.\<close>

definition hydrate :: "database \<Rightarrow> query \<Rightarrow> element \<Rightarrow> element" where
  "hydrate db q record = newInstance (models db (entity q)) record"

definition data :: "database \<Rightarrow> query \<Rightarrow> elements" where
  "data db q = conn_get db (entity q)"

definition all :: "database \<Rightarrow> query \<Rightarrow> element list" where
  "all db q = map (\<lambda>(i, record). hydrate db q record) (conn_get db (entity q))"

text \<open>\<^verbatim>\<open>model[where.field]\<close>. An array of names is turned into the property key that joins
  them with commas. A closure in the field slot never gets this far.\<close>

fun joinNames :: "string list \<Rightarrow> string" where
  "joinNames [] = []"
| "joinNames [x] = x"
| "joinNames (x # y # ys) = x @ '','' @ joinNames (y # ys)"

fun fieldValue :: "element \<Rightarrow> wfield \<Rightarrow> jsval" where
  "fieldValue model (FieldName name) = getProp model name"
| "fieldValue model (FieldNames names) = getProp model (joinNames names)"
| "fieldValue model (FieldClosure f) = JUndefined"

definition whereComparator :: "element \<Rightarrow> where_clause \<Rightarrow> bool" where
  "whereComparator model w =
     (case w_field w of
        FieldClosure f \<Rightarrow> f model
      | _ \<Rightarrow>
        (case w_value w of
           Value (JArr xs) \<Rightarrow> arrayIncludes xs (fieldValue model (w_field w))
         | ValueClosure g \<Rightarrow> g (fieldValue model (w_field w))
         | Value v \<Rightarrow> strictEquals (fieldValue model (w_field w)) v))"

definition getWhereComparator :: "query \<Rightarrow> element \<Rightarrow> bool" where
  "getWhereComparator q =
     (let groups = groupBy (wheres q) w_boolean
      in (\<lambda>model.
        let results = [];
            results = (case groups And of
                         Some and_group \<Rightarrow> results @ [list_all (whereComparator model) and_group]
                       | None \<Rightarrow> results);
            results = (case groups Or of
                         Some or_group \<Rightarrow> results @ [list_ex (whereComparator model) or_group]
                       | None \<Rightarrow> results)
        in indexOf results True \<noteq> - 1))"

definition filterWhere :: "query \<Rightarrow> element list \<Rightarrow> element list" where
  "filterWhere q ms =
     (if isEmpty (wheres q) then ms
      else (let comparator = getWhereComparator q in filter (\<lambda>model. comparator model) ms))"

definition filterOrder :: "query \<Rightarrow> element list \<Rightarrow> element list" where
  "filterOrder q ms =
     (if length (orders q) = 0 then ms
      else orderBy ms (map o_field (orders q)) (map o_direction (orders q)))"

definition filterLimit :: "query \<Rightarrow> element list \<Rightarrow> element list" where
  "filterLimit q ms =
     (case take_q q of
        Some t \<Rightarrow> slice ms (skip_q q) (skip_q q + t)
      | None \<Rightarrow> sliceFrom ms (skip_q q))"

definition select :: "database \<Rightarrow> query \<Rightarrow> element list" where
  "select db q =
     (let ms = all db q;
          ms = filterWhere q ms;
          ms = filterOrder q ms;
          ms = filterLimit q ms
      in ms)"

text \<open>Eager loading changes the relation attributes of the models in place; here it
  returns the models as they are afterwards, or the error that was raised.\<close>

definition eagerLoadRelation ::
  "database \<Rightarrow> query \<Rightarrow> element list \<Rightarrow> string \<Rightarrow> constraint \<Rightarrow> error + element list" where
  "eagerLoadRelation db q ms name constraints =
     (case getRelation (models db (entity q)) name of
        Inl err \<Rightarrow> Inl err
      | Inr r \<Rightarrow>
        (let sub = newQueryForRelation r;
             sub = addEagerConstraints r sub ms;
             sub = applyConstraint db constraints sub
         in Inr (match r name ms (getEager r (store db) sub))))"

fun eagerLoadEach ::
  "database \<Rightarrow> query \<Rightarrow> (string \<times> constraint) list \<Rightarrow> element list \<Rightarrow> error + element list" where
  "eagerLoadEach db q [] ms = Inr ms"
| "eagerLoadEach db q ((name, constraints) # rest) ms =
     (case eagerLoadRelation db q ms name constraints of
        Inl err \<Rightarrow> Inl err
      | Inr ms' \<Rightarrow> eagerLoadEach db q rest ms')"

text \<open>\<^verbatim>\<open>for (const name in this.eagerLoad)\<close>.\<close>

definition eagerLoadRelations :: "database \<Rightarrow> query \<Rightarrow> element list \<Rightarrow> error + element list" where
  "eagerLoadRelations db q ms = eagerLoadEach db q (eagerLoad q) ms"

definition get :: "database \<Rightarrow> query \<Rightarrow> error + element list" where
  "get db q =
     (let ms = select db q
      in if \<not> isEmpty ms then eagerLoadRelations db q ms else Inr ms)"

text \<open>The terminal calls below call chain methods on the query itself, so they return
  the query as they leave it next to their result.\<close>

definition first :: "database \<Rightarrow> query \<Rightarrow> (error + element option) \<times> query" where
  "first db q =
     (let q' = limit 1 q
      in (case get db q' of
            Inl err \<Rightarrow> Inl err
          | Inr ms \<Rightarrow> Inr (case ms of [] \<Rightarrow> None | m # _ \<Rightarrow> Some m),
          q'))"

definition findIn :: "database \<Rightarrow> jsval \<Rightarrow> query \<Rightarrow> (error + element list) \<times> query" where
  "findIn db ids q = (let q' = whereId db ids q in (get db q', q'))"

text \<open>\<open>find_q\<close> is the method \<^verbatim>\<open>find\<close>: it returns one item for an id and a collection for
  an array of ids.\<close>

datatype found = Item "element option" | Collection "element list"

definition find_q :: "database \<Rightarrow> jsval \<Rightarrow> query \<Rightarrow> (error + found) \<times> query" where
  "find_q db ids q =
     (if isArray ids
      then (case findIn db ids q of (r, q') \<Rightarrow> (map_sum id Collection r, q'))
      else (case first db (whereId db ids q) of (r, q') \<Rightarrow> (map_sum id Item r, q')))"

section \<open>Revival\<close>

text \<open>\<^verbatim>\<open>reviveOne\<close>, \<^verbatim>\<open>reviveMany\<close> and \<^verbatim>\<open>reviveRelations\<close>. The loop
  \<^verbatim>\<open>for (const key in schema)\<close> of \<^verbatim>\<open>reviveRelations\<close> runs over the properties of the
  schema element, an object (\<^verbatim>\<open>Element\<close>). A number, a boolean, \<^verbatim>\<open>null\<close> or \<^verbatim>\<open>undefined\<close>
  in its place has no properties to follow; an array or a string, whose indices the loop
  would run over, is no \<^verbatim>\<open>Element\<close> and is given none here. \<^verbatim>\<open>reviveMany\<close> is a
  \<^verbatim>\<open>reduce\<close> that pushes every model that is not \<^verbatim>\<open>null\<close>.\<close>

fun reviveOne :: "database \<Rightarrow> query \<Rightarrow> jsval \<Rightarrow> element option"
and reviveMany :: "database \<Rightarrow> query \<Rightarrow> jsval list \<Rightarrow> element list"
and reviveRelations :: "database \<Rightarrow> query \<Rightarrow> element \<Rightarrow> (string \<times> jsval) list \<Rightarrow> element"
where
  "reviveOne db q (JObj props) =
     (let i = getIndexId (models db (entity q)) (JObj props)
      in case conn_find db (entity q) i of
           None \<Rightarrow> None
         | Some item \<Rightarrow> Some (reviveRelations db q (hydrate db q item) props))"
| "reviveOne db q schema =
     (let i = getIndexId (models db (entity q)) schema
      in case conn_find db (entity q) i of
           None \<Rightarrow> None
         | Some item \<Rightarrow> Some (hydrate db q item))"
| "reviveMany db q [] = []"
| "reviveMany db q (item # rest) =
     (case reviveOne db q item of
        None \<Rightarrow> reviveMany db q rest
      | Some model \<Rightarrow> model # reviveMany db q rest)"
| "reviveRelations db q model [] = model"
| "reviveRelations db q model ((key, relatedSchema) # rest) =
     (case map_of (modelFields (models db (entity q))) key of
        Some (Relation r) \<Rightarrow>
          (if \<not> truthy relatedSchema then model
           else reviveRelations db q
                  (setProp model key
                     (case relatedSchema of
                        JArr items \<Rightarrow> JArr (map JObj (reviveMany db (newQueryForRelation r) items))
                      | _ \<Rightarrow> (case reviveOne db (newQueryForRelation r) relatedSchema of
                                None \<Rightarrow> JNull
                              | Some m \<Rightarrow> JObj m)))
                  rest)
      | _ \<Rightarrow> reviveRelations db q model rest)"

section \<open>Mutation\<close>

text \<open>The methods that write return the database as they leave it.\<close>

definition saveElements :: "database \<Rightarrow> elements \<Rightarrow> query \<Rightarrow> database" where
  "saveElements db elems q =
     (let newData = [];
          currentData = data db q;
          newData =
            fold (\<lambda>(i, record) newData.
                    let existing = map_of currentData i
                    in setProp newData i
                         (case existing of
                            Some ex \<Rightarrow>
                              getAttributes (models db (entity q)) (hydrate db q (spread ex record))
                          | None \<Rightarrow> getAttributes (models db (entity q)) (hydrate db q record)))
              elems newData
      in conn_save db (entity q) newData)"

definition getIndexIdsFromCollection :: "database \<Rightarrow> query \<Rightarrow> element list \<Rightarrow> string list" where
  "getIndexIdsFromCollection db q ms =
     map (\<lambda>model. getIndexId (models db (entity q)) (JObj model)) ms"

text \<open>\<^verbatim>\<open>destroyOne\<close> is called with an id and \<^verbatim>\<open>destroyMany\<close> with an array of ids; then
  \<^verbatim>\<open>find\<close> returns an item to the one and a collection to the other. The other
  combinations call a method the value does not have.\<close>

definition destroyOne ::
  "database \<Rightarrow> jsval \<Rightarrow> query \<Rightarrow> (error + element option) \<times> query \<times> database" where
  "destroyOne db i q =
     (case find_q db i q of
        (Inl err, q') \<Rightarrow> (Inl err, q', db)
      | (Inr (Item None), q') \<Rightarrow> (Inr None, q', db)
      | (Inr (Item (Some model)), q') \<Rightarrow>
          (Inr (Some model), q',
           conn_destroy db (entity q) [getIndexId (models db (entity q)) (JObj model)])
      | (Inr (Collection ms), q') \<Rightarrow> (Inl TypeError, q', db))"

definition destroyMany ::
  "database \<Rightarrow> jsval \<Rightarrow> query \<Rightarrow> (error + element list) \<times> query \<times> database" where
  "destroyMany db ids q =
     (case find_q db ids q of
        (Inl err, q') \<Rightarrow> (Inl err, q', db)
      | (Inr (Collection ms), q') \<Rightarrow>
          (if isEmpty ms then (Inr [], q', db)
           else (Inr ms, q', conn_destroy db (entity q) (getIndexIdsFromCollection db q ms)))
      | (Inr (Item m), q') \<Rightarrow> (Inl TypeError, q', db))"

definition destroyMessage :: "string list" where
  "destroyMessage =
     [''You can'' @ [CHR 0x27] @ ''t use the `destroy` method on a model with a composite key.'',
      ''Please use `delete` method instead.'']"

definition destroy :: "database \<Rightarrow> jsval \<Rightarrow> query \<Rightarrow> (error + found) \<times> query \<times> database" where
  "destroy db ids q =
     (case assert (\<not> hasCompositeKey (models db (entity q))) destroyMessage of
        Some err \<Rightarrow> (Inl err, q, db)
      | None \<Rightarrow>
          (if isArray ids
           then (case destroyMany db ids q of (r, q', db') \<Rightarrow> (map_sum id Collection r, q', db'))
           else (case destroyOne db ids q of (r, q', db') \<Rightarrow> (map_sum id Item r, q', db'))))"

section \<open>Notions the properties are stated with\<close>

text \<open>The clauses of a query with the connector \<^verbatim>\<open>and\<close>, and those with \<^verbatim>\<open>or\<close>, as
  section 4.1 of the spec names them.\<close>

definition andGroup :: "query \<Rightarrow> where_clause list" where
  "andGroup q = filter (\<lambda>w. w_boolean w = And) (wheres q)"

definition orGroup :: "query \<Rightarrow> where_clause list" where
  "orGroup q = filter (\<lambda>w. w_boolean w = Or) (wheres q)"

text \<open>\<^verbatim>\<open>isFunction(where.field)\<close>.\<close>

fun isFunctionField :: "wfield \<Rightarrow> bool" where
  "isFunctionField (FieldClosure _) = True"
| "isFunctionField _ = False"

text \<open>The comparison that \<open>orderBy\<close> makes of \<^verbatim>\<open>orderBy('id', 'desc')\<close>.\<close>

definition byIdDesc :: "element \<Rightarrow> element \<Rightarrow> int" where
  "byIdDesc = compareMultiple [(OrderField ''id'', Desc)]"

text \<open>What \<^verbatim>\<open>saveElements\<close> is to persist for an incoming element, in the words of section
  4.6: the hydrated merge of the existing record and the incoming one when the id is in
  the store, the hydrated incoming record otherwise.\<close>

definition persisted :: "database \<Rightarrow> query \<Rightarrow> string \<Rightarrow> element \<Rightarrow> element" where
  "persisted db q i record =
     getAttributes (models db (entity q))
       (hydrate db q
          (case conn_find db (entity q) i of
             Some existing \<Rightarrow> spread existing record
           | None \<Rightarrow> record))"

text \<open>The names of the fields of a model that are relations.\<close>

definition relationNames :: "model_meta \<Rightarrow> string set" where
  "relationNames m = fst ` set (filter (\<lambda>(name, a). isRelation a) (modelFields m))"

text \<open>The where clause on the primary key that \<open>whereId\<close> appends to a query.\<close>

definition keyClause :: "database \<Rightarrow> jsval \<Rightarrow> query \<Rightarrow> where_clause" where
  "keyClause db ids q =
     \<lparr>w_field = keyField (getKeyName (models db (entity q))), w_value = Value ids, w_boolean = And\<rparr>"

section \<open>Sample data\<close>

text \<open>Example values for the parameters, used to evaluate the definitions on concrete
  inputs. Modelled from the spec: the sample model hydrates a record by filling its plain
  fields from the record (section 4.7: relation fields are not populated), its attributes
  are its plain fields, and its index id is the primary key as a string (a composite key
  gives a composite string).\<close>

function showNat :: "nat \<Rightarrow> string" where
  "showNat n =
     (if n < 10 then [''0123456789'' ! n] else showNat (n div 10) @ [''0123456789'' ! (n mod 10)])"
  by pat_completeness auto
termination
  by (relation "measure id") auto

fun stringify :: "jsval \<Rightarrow> string" where
  "stringify (JNum n) = (if n < 0 then ''-'' @ showNat (nat (- n)) else showNat (nat n))"
| "stringify (JStr s) = s"
| "stringify _ = ''undefined''"

definition sampleModel :: "(string \<times> attr) list \<Rightarrow> key_name \<Rightarrow> model_meta" where
  "sampleModel fs key =
     \<lparr>modelFields = fs,
      getKeyName = key,
      newInstance = (\<lambda>record.
        map (\<lambda>(name, a). (name, case map_of record name of None \<Rightarrow> JNull | Some v \<Rightarrow> v))
          (filter (\<lambda>(name, a). \<not> isRelation a) fs)),
      getAttributes = (\<lambda>model.
        filter (\<lambda>(name, v). case map_of fs name of Some Attribute \<Rightarrow> True | _ \<Rightarrow> False) model),
      getIndexId = (\<lambda>v.
        case v of
          JObj props \<Rightarrow>
            (case key of
               KeySingle k \<Rightarrow> stringify (getProp props k)
             | KeyComposite ks \<Rightarrow> ''['' @ joinNames (map (\<lambda>k. stringify (getProp props k)) ks) @ '']'')
        | _ \<Rightarrow> ''undefined'')\<rparr>"

definition sampleDatabase :: "(string \<times> model_meta) list \<Rightarrow> (string \<times> elements) list \<Rightarrow> database" where
  "sampleDatabase ms st =
     \<lparr>models = (\<lambda>e. case map_of ms e of Some m \<Rightarrow> m | None \<Rightarrow> sampleModel [] (KeySingle ''id'')),
      store = (\<lambda>e. case map_of st e of Some records \<Rightarrow> records | None \<Rightarrow> [])\<rparr>"

text \<open>Modelled from the spec: two sample relations, for the relation fields of the sample
  models. Their eager constraint is that the key of the related records is among the
  keys of the parents (section 4.4), the eager set is the sub-query run on the store, and
  matching sets the relation attribute of every parent: to the array of its related
  records for \<open>hasMany\<close>, to its related record or \<^verbatim>\<open>null\<close> for \<open>belongsTo\<close>.\<close>

definition runOnStore :: "(string \<Rightarrow> elements) \<Rightarrow> query \<Rightarrow> element list" where
  "runOnStore st q = filterLimit q (filterOrder q (filterWhere q (map snd (st (entity q)))))"

text \<open>The value that matching a has-many relation gives the relation attribute of a
  parent: the array of the eager records whose foreign key is the parent's local key.\<close>

definition pickMany :: "string \<Rightarrow> string \<Rightarrow> element \<Rightarrow> element list \<Rightarrow> jsval" where
  "pickMany foreignKey localKey m es =
     JArr (map JObj (filter (\<lambda>r. strictEquals (getProp r foreignKey) (getProp m localKey)) es))"

definition hasMany :: "string \<Rightarrow> string \<Rightarrow> string \<Rightarrow> relation" where
  "hasMany relatedEntity foreignKey localKey =
     \<lparr>related = relatedEntity,
      addEagerConstraints = (\<lambda>q ms. whereIn foreignKey (map (\<lambda>m. getProp m localKey) ms) q),
      getEager = runOnStore,
      match = (\<lambda>name ms es. map (\<lambda>m. setProp m name (pickMany foreignKey localKey m es)) ms)\<rparr>"

definition belongsTo :: "string \<Rightarrow> string \<Rightarrow> string \<Rightarrow> relation" where
  "belongsTo relatedEntity foreignKey ownerKey =
     \<lparr>related = relatedEntity,
      addEagerConstraints = (\<lambda>q ms. whereIn ownerKey (map (\<lambda>m. getProp m foreignKey) ms) q),
      getEager = runOnStore,
      match = (\<lambda>name ms es.
        map (\<lambda>m. setProp m name
               (case filter (\<lambda>r. strictEquals (getProp r ownerKey) (getProp m foreignKey)) es of
                  [] \<Rightarrow> JNull
                | r # _ \<Rightarrow> JObj r))
          ms)\<rparr>"

text \<open>The sample databases: ten users, two users, an entity with the fields
  \<^verbatim>\<open>a\<close> and \<^verbatim>\<open>b\<close>, an entity with a composite key, and a blog of users, posts and
  comments.\<close>

definition tenUsers :: database where
  "tenUsers =
     sampleDatabase
       [(''users'', sampleModel [(''id'', Attribute)] (KeySingle ''id''))]
       [(''users'', map (\<lambda>n. (stringify (JNum n), [(''id'', JNum n)])) [1, 2, 3, 4, 5, 6, 7, 8, 9, 10])]"

definition twoUsers :: database where
  "twoUsers =
     sampleDatabase
       [(''users'', sampleModel [(''id'', Attribute), (''name'', Attribute)] (KeySingle ''id''))]
       [(''users'',
          [(''1'', [(''id'', JNum 1), (''name'', JStr ''John'')]),
           (''2'', [(''id'', JNum 2), (''name'', JStr ''Jane'')])])]"

definition abItems :: database where
  "abItems =
     sampleDatabase
       [(''items'',
         sampleModel [(''id'', Attribute), (''a'', Attribute), (''b'', Attribute)] (KeySingle ''id''))]
       [(''items'', [(''1'', [(''id'', JNum 1), (''a'', JNum 1), (''b'', JNum 2)])])]"

definition compositeDb :: database where
  "compositeDb =
     sampleDatabase
       [(''roles'',
         sampleModel [(''user_id'', Attribute), (''role_id'', Attribute)]
           (KeyComposite [''user_id'', ''role_id'']))]
       [(''roles'', [(''[1,2]'', [(''user_id'', JNum 1), (''role_id'', JNum 2)])])]"

definition blog :: database where
  "blog =
     sampleDatabase
       [(''users'',
         sampleModel
           [(''id'', Attribute), (''name'', Attribute),
            (''posts'', Relation (hasMany ''posts'' ''user_id'' ''id'')),
            (''comments'', Relation (hasMany ''comments'' ''user_id'' ''id''))]
           (KeySingle ''id'')),
        (''posts'',
         sampleModel
           [(''id'', Attribute), (''user_id'', Attribute),
            (''author'', Relation (belongsTo ''users'' ''user_id'' ''id'')),
            (''comments'', Relation (hasMany ''comments'' ''post_id'' ''id''))]
           (KeySingle ''id'')),
        (''comments'',
         sampleModel
           [(''id'', Attribute), (''post_id'', Attribute), (''user_id'', Attribute)]
           (KeySingle ''id''))]
       [(''users'', [(''1'', [(''id'', JNum 1), (''name'', JStr ''John'')])]),
        (''posts'', [(''1'', [(''id'', JNum 1), (''user_id'', JNum 1)])]),
        (''comments'',
           [(''2'', [(''id'', JNum 2), (''post_id'', JNum 1), (''user_id'', JNum 1)])])]"

chapter \<open>Properties\<close>

section \<open>Filtering by where clauses\<close>

lemma groupBy_snoc:
  "groupBy (xs @ [x]) f =
     (groupBy xs f)(f x \<mapsto> (case groupBy xs f (f x) of None \<Rightarrow> [] | Some ys \<Rightarrow> ys) @ [x])"
  by (simp add: groupBy_def)

lemma groupBy_filter:
  "groupBy xs f k =
     (if filter (\<lambda>x. f x = k) xs = [] then None else Some (filter (\<lambda>x. f x = k) xs))"
proof (induction xs arbitrary: k rule: rev_induct)
  case Nil
  then show ?case by (simp add: groupBy_def)
next
  case (snoc x xs)
  then show ?case by (simp add: groupBy_snoc)
qed

lemma indexOf_ge: "- 1 \<le> indexOf xs v"
  by (induction xs) (auto simp: Let_def)

lemma indexOf_mem: "(indexOf xs v \<noteq> - 1) = (v \<in> set xs)"
proof (induction xs)
  case Nil
  then show ?case by simp
next
  case (Cons x xs)
  have "- 1 \<le> indexOf xs v" by (rule indexOf_ge)
  with Cons show ?case by (auto simp: Let_def)
qed

lemma getWhereComparator_groups:
  "getWhereComparator q m =
     ((andGroup q \<noteq> [] \<and> list_all (whereComparator m) (andGroup q)) \<or>
      (orGroup q \<noteq> [] \<and> list_ex (whereComparator m) (orGroup q)))"
  by (auto simp: getWhereComparator_def Let_def groupBy_filter indexOf_mem andGroup_def orGroup_def)

text \<open>C1: \<open>filterWhere\<close> keeps exactly the models for which there is no clause at all, or
  the and-group is not empty and every clause of it matches, or the or-group is not empty
  and some clause of it matches. The two groups are joined by a disjunction, and an empty
  group contributes nothing.\<close>

theorem filterWhere_groups:
  "filterWhere q ms =
     filter (\<lambda>m. wheres q = [] \<or>
                 (andGroup q \<noteq> [] \<and> list_all (whereComparator m) (andGroup q)) \<or>
                 (orGroup q \<noteq> [] \<and> list_ex (whereComparator m) (orGroup q))) ms"
proof (cases "wheres q = []")
  case True
  then show ?thesis by (simp add: filterWhere_def isEmpty_def)
next
  case False
  have "getWhereComparator q =
      (\<lambda>m. (andGroup q \<noteq> [] \<and> list_all (whereComparator m) (andGroup q)) \<or>
           (orGroup q \<noteq> [] \<and> list_ex (whereComparator m) (orGroup q)))"
    by (rule ext) (rule getWhereComparator_groups)
  with False show ?thesis
    by (simp add: filterWhere_def isEmpty_def Let_def)
qed

text \<open>The example of section 8: after \<^verbatim>\<open>where('active', true).orWhere('name', 'Jane')\<close> an
  inactive Jane is kept for the or-group, an inactive John is dropped, an active John is
  kept for the and-group.\<close>

theorem filterWhere_groups_witness:
  "filterWhere
     (orWhere (FieldName ''name'') (Value (JStr ''Jane''))
        (where_q (FieldName ''active'') (Value (JBool True)) (Query ''users'')))
     [[(''active'', JBool False), (''name'', JStr ''Jane'')],
      [(''active'', JBool False), (''name'', JStr ''John'')],
      [(''active'', JBool True), (''name'', JStr ''John'')]]
   = [[(''active'', JBool False), (''name'', JStr ''Jane'')],
      [(''active'', JBool True), (''name'', JStr ''John'')]]"
  by (simp add: filterWhere_groups andGroup_def orGroup_def orWhere_def where_q_def Query_def
      whereComparator_def getProp_def strictEquals_def)

lemma arrayIncludes_mem: "arrayIncludes xs v = (\<not> isObject v \<and> v \<in> set xs)"
  by (auto simp: arrayIncludes_def sameValueZero_def list_ex_iff)

text \<open>C2: a single clause is matched in this order. (1) A closure in the field slot is
  called with the model. (2) Otherwise an array in the value slot matches when the
  model's field value is one of its items (arrays and objects, compared by reference,
  are never items). (3) Otherwise a closure in the value slot is called with the field
  value. (4) Otherwise the field value must be strictly equal to the clause's value.\<close>

theorem whereComparator_priority:
  "(\<forall>f. w_field w = FieldClosure f \<longrightarrow> whereComparator m w = f m) \<and>
   (\<forall>xs. \<not> isFunctionField (w_field w) \<and> w_value w = Value (JArr xs) \<longrightarrow>
      whereComparator m w =
        (\<not> isObject (fieldValue m (w_field w)) \<and> fieldValue m (w_field w) \<in> set xs)) \<and>
   (\<forall>g. \<not> isFunctionField (w_field w) \<and> w_value w = ValueClosure g \<longrightarrow>
      whereComparator m w = g (fieldValue m (w_field w))) \<and>
   (\<forall>v. \<not> isFunctionField (w_field w) \<and> w_value w = Value v \<and> \<not> isArray v \<longrightarrow>
      whereComparator m w = strictEquals (fieldValue m (w_field w)) v)"
  by (cases "w_field w"; cases "w_value w")
     (auto simp: whereComparator_def arrayIncludes_mem split: jsval.splits)

theorem whereComparator_priority_witness:
  "whereComparator [(''id'', JNum 1)]
     \<lparr>w_field = FieldClosure (\<lambda>m. getProp m ''id'' = JNum 1), w_value = Value (JArr []),
      w_boolean = And\<rparr> \<and>
   whereComparator [(''id'', JNum 1)]
     \<lparr>w_field = FieldName ''id'', w_value = Value (JArr [JNum 1, JNum 2]), w_boolean = And\<rparr> \<and>
   \<not> whereComparator [(''id'', JNum 1)]
     \<lparr>w_field = FieldName ''id'', w_value = ValueClosure (\<lambda>v. v = JNum 2), w_boolean = And\<rparr> \<and>
   \<not> whereComparator [(''id'', JNum 1)]
     \<lparr>w_field = FieldName ''id'', w_value = Value (JStr ''1''), w_boolean = And\<rparr>"
  using
    whereComparator_priority [of "\<lparr>w_field = FieldClosure (\<lambda>m. getProp m ''id'' = JNum 1),
      w_value = Value (JArr []), w_boolean = And\<rparr>" "[(''id'', JNum 1)]"]
    whereComparator_priority [of "\<lparr>w_field = FieldName ''id'',
      w_value = Value (JArr [JNum 1, JNum 2]), w_boolean = And\<rparr>" "[(''id'', JNum 1)]"]
    whereComparator_priority [of "\<lparr>w_field = FieldName ''id'',
      w_value = ValueClosure (\<lambda>v. v = JNum 2), w_boolean = And\<rparr>" "[(''id'', JNum 1)]"]
    whereComparator_priority [of "\<lparr>w_field = FieldName ''id'',
      w_value = Value (JStr ''1''), w_boolean = And\<rparr>" "[(''id'', JNum 1)]"]
  by (simp add: getProp_def strictEquals_def)

section \<open>Ordering and pagination\<close>

lemma slice_take_drop:
  assumes s: "0 \<le> s" and t: "0 \<le> t"
  shows "slice xs s (s + t) = take (nat t) (drop (nat s) xs)"
proof -
  have st: "nat (s + t) = nat s + nat t"
    using s t by (simp add: nat_add_distrib)
  have idx: "relativeIndex (length xs) s = min (nat s) (length xs)"
    "relativeIndex (length xs) (s + t) = min (nat s + nat t) (length xs)"
    using s t st by (simp_all add: relativeIndex_def)
  consider (inside) "nat s + nat t \<le> length xs"
    | (over) "nat s \<le> length xs" "length xs < nat s + nat t"
    | (beyond) "length xs < nat s"
    by linarith
  then show ?thesis
  proof cases
    case inside
    then show ?thesis by (simp add: slice_def idx Let_def)
  next
    case over
    then have m: "min (nat s + nat t) (length xs) = length xs" "min (nat s) (length xs) = nat s"
      by simp_all
    have "take (nat t) (drop (nat s) xs) = drop (nat s) xs"
      using over by simp
    then show ?thesis by (simp add: slice_def idx Let_def m)
  next
    case beyond
    then show ?thesis by (simp add: slice_def idx Let_def)
  qed
qed

lemma sliceFrom_drop: "0 \<le> s \<Longrightarrow> sliceFrom xs s = drop (nat s) xs"
  by (simp add: sliceFrom_def relativeIndex_def min_def)

lemma byIdDesc_le:
  "getProp a ''id'' = JNum x \<Longrightarrow> getProp b ''id'' = JNum y \<Longrightarrow> (byIdDesc a b \<le> 0) = (y \<le> x)"
  by (simp add: byIdDesc_def Let_def)

lemma insertSorted_ids:
  "getProp a ''id'' = JNum x \<Longrightarrow> map (\<lambda>m. getProp m ''id'') ys = map JNum ks \<Longrightarrow>
   map (\<lambda>m. getProp m ''id'') (insertSorted byIdDesc a ys) = map JNum (insort_key uminus x ks)"
proof (induction ys arbitrary: ks)
  case Nil
  then show ?case by simp
next
  case (Cons y ys)
  then obtain k ks' where ks: "ks = k # ks'" by (cases ks) auto
  with Cons.prems have y: "getProp y ''id'' = JNum k"
    and rest: "map (\<lambda>m. getProp m ''id'') ys = map JNum ks'" by auto
  show ?case
    using Cons.IH [OF Cons.prems(1) rest] byIdDesc_le [OF Cons.prems(1) y] y rest ks Cons.prems(1)
    by simp
qed

lemma stableSort_ids:
  "map (\<lambda>m. getProp m ''id'') ms = map JNum ns \<Longrightarrow>
   map (\<lambda>m. getProp m ''id'') (stableSort byIdDesc ms) = map JNum (sort_key uminus ns)"
proof (induction ms arbitrary: ns)
  case Nil
  then show ?case by simp
next
  case (Cons m ms)
  then obtain n ns' where ns: "ns = n # ns'" by (cases ns) auto
  with Cons.prems have m: "getProp m ''id'' = JNum n"
    and rest: "map (\<lambda>m. getProp m ''id'') ms = map JNum ns'" by auto
  show ?case
    using insertSorted_ids [OF m Cons.IH [OF rest]] ns by simp
qed

lemma sort_desc_1_10:
  assumes "distinct ns" and "set ns = {1..10::int}"
  shows "sort_key uminus ns = [10, 9, 8, 7, 6, 5, 4, 3, 2, 1]"
proof -
  let ?r = "[10, 9, 8, 7, 6, 5, 4, 3, 2, 1] :: int list"
  have set_r: "set ?r = {1..10}" by auto arith
  have "map uminus (sort_key uminus ns) = map uminus ?r"
  proof (rule sorted_distinct_set_unique)
    show "sorted (map uminus (sort_key uminus ns))" by (rule sorted_sort_key)
    show "distinct (map uminus (sort_key uminus ns))"
      using assms(1) by (simp add: distinct_map)
    show "sorted (map uminus ?r)" by simp
    show "distinct (map uminus ?r)" by simp
    have "set (sort_key uminus ns) = set ?r"
      using assms(2) set_r by simp
    then show "set (map uminus (sort_key uminus ns)) = set (map uminus ?r)"
      unfolding set_map by (rule arg_cong)
  qed
  then show ?thesis
    by (rule map_injective) (rule inj_uminus)
qed


lemma all_entity: "entity q = entity q' \<Longrightarrow> all db q = all db q'"
  by (simp add: all_def hydrate_def)

text \<open>C3, as amended: pagination comes last in \<open>select\<close>, after filtering and ordering,
  as \<^verbatim>\<open>slice(offset, offset + limit)\<close> when a limit is set and \<^verbatim>\<open>slice(offset)\<close> otherwise;
  for an offset and a limit that are not negative these are \<open>take limit (drop offset _)\<close>
  and \<open>drop offset _\<close>. For an entity whose models have the ids 1 to 10, in whatever
  order the store holds them, \<^verbatim>\<open>orderBy('id', 'desc').limit(3).offset(2)\<close> selects the models
  with the ids 8, 7, 6 in that order.\<close>

theorem select_pagination:
  "(\<forall>t. take_q q = Some t \<longrightarrow>
      select db q = slice (filterOrder q (filterWhere q (all db q))) (skip_q q) (skip_q q + t)) \<and>
   (take_q q = None \<longrightarrow>
      select db q = sliceFrom (filterOrder q (filterWhere q (all db q))) (skip_q q)) \<and>
   (\<forall>t. take_q q = Some t \<and> 0 \<le> skip_q q \<and> 0 \<le> t \<longrightarrow>
      select db q = take (nat t) (drop (nat (skip_q q)) (filterOrder q (filterWhere q (all db q))))) \<and>
   (take_q q = None \<and> 0 \<le> skip_q q \<longrightarrow>
      select db q = drop (nat (skip_q q)) (filterOrder q (filterWhere q (all db q)))) \<and>
   (\<forall>ns. map (\<lambda>m. getProp m ''id'') (all db (Query e)) = map JNum ns \<and> distinct ns \<and>
         set ns = {1..10} \<longrightarrow>
      map (\<lambda>m. getProp m ''id'')
        (select db (offset 2 (limit 3 (orderBy_q (OrderField ''id'') Desc (Query e)))))
      = [JNum 8, JNum 7, JNum 6])"
proof (intro conjI allI impI)
  fix t assume "take_q q = Some t"
  then show "select db q = slice (filterOrder q (filterWhere q (all db q))) (skip_q q) (skip_q q + t)"
    by (simp add: select_def filterLimit_def)
next
  assume "take_q q = None"
  then show "select db q = sliceFrom (filterOrder q (filterWhere q (all db q))) (skip_q q)"
    by (simp add: select_def filterLimit_def)
next
  fix t assume "take_q q = Some t \<and> 0 \<le> skip_q q \<and> 0 \<le> t"
  then show "select db q =
      take (nat t) (drop (nat (skip_q q)) (filterOrder q (filterWhere q (all db q))))"
    by (simp add: select_def filterLimit_def slice_take_drop)
next
  assume "take_q q = None \<and> 0 \<le> skip_q q"
  then show "select db q = drop (nat (skip_q q)) (filterOrder q (filterWhere q (all db q)))"
    by (simp add: select_def filterLimit_def sliceFrom_drop)
next
  fix ns
  let ?q = "offset 2 (limit 3 (orderBy_q (OrderField ''id'') Desc (Query e)))"
  assume h: "map (\<lambda>m. getProp m ''id'') (all db (Query e)) = map JNum ns \<and> distinct ns \<and>
    set ns = {1..10}"
  have q: "wheres ?q = []" "orders ?q = [\<lparr>o_field = OrderField ''id'', o_direction = Desc\<rparr>]"
    "take_q ?q = Some 3" "skip_q ?q = 2" "entity ?q = entity (Query e)"
    by (simp_all add: offset_def limit_def orderBy_q_def Query_def)
  have a: "all db ?q = all db (Query e)"
    by (rule all_entity) (rule q)
  have sel: "select db ?q = take 3 (drop 2 (stableSort byIdDesc (all db (Query e))))"
    by (simp add: select_def filterLimit_def q a filterWhere_def filterOrder_def isEmpty_def
        orderBy_def byIdDesc_def slice_take_drop [of 2 3, simplified])
  have sorted_ids: "map (\<lambda>m. getProp m ''id'') (stableSort byIdDesc (all db (Query e)))
      = map JNum [10, 9, 8, 7, 6, 5, 4, 3, 2, 1]"
    using h stableSort_ids [of "all db (Query e)" ns] sort_desc_1_10 [of ns] by simp
  have "map (\<lambda>m. getProp m ''id'') (select db ?q)
      = take 3 (drop 2 (map (\<lambda>m. getProp m ''id'') (stableSort byIdDesc (all db (Query e)))))"
    by (simp only: sel take_map drop_map)
  also have "\<dots> = take 3 (drop 2 (map JNum [10, 9, 8, 7, 6, 5, 4, 3, 2, 1]))"
    by (simp only: sorted_ids)
  also have "\<dots> = [JNum 8, JNum 7, JNum 6]"
    by simp
  finally show "map (\<lambda>m. getProp m ''id'') (select db ?q) = [JNum 8, JNum 7, JNum 6]" .
qed

theorem select_pagination_witness:
  "map (\<lambda>m. getProp m ''id'')
     (select tenUsers (offset 2 (limit 3 (orderBy_q (OrderField ''id'') Desc (Query ''users'')))))
   = [JNum 8, JNum 7, JNum 6] \<and>
   select tenUsers (offset 8 (Query ''users'')) = [[(''id'', JNum 9)], [(''id'', JNum 10)]] \<and>
   select tenUsers (offset 1 (limit 2 (Query ''users''))) = [[(''id'', JNum 2)], [(''id'', JNum 3)]]"
proof -
  have a: "all tenUsers q =
      map (\<lambda>n. [(''id'', JNum n)]) [1, 2, 3, 4, 5, 6, 7, 8, 9, 10]" if "entity q = ''users''" for q
    using that
    by (simp add: all_def hydrate_def conn_get_def tenUsers_def sampleDatabase_def sampleModel_def)
  have ids: "set [1, 2, 3, 4, 5, 6, 7, 8, 9, 10] = {1..10::int}"
    by auto arith
  have "map (\<lambda>m. getProp m ''id'') (all tenUsers (Query ''users''))
      = map JNum [1, 2, 3, 4, 5, 6, 7, 8, 9, 10] \<and>
    distinct [1, 2, 3, 4, 5, 6, 7, 8, 9, 10 :: int] \<and> set [1, 2, 3, 4, 5, 6, 7, 8, 9, 10] = {1..10::int}"
    by (simp only: ids) (simp add: a Query_def getProp_def)
  then have 1: "map (\<lambda>m. getProp m ''id'')
     (select tenUsers (offset 2 (limit 3 (orderBy_q (OrderField ''id'') Desc (Query ''users'')))))
   = [JNum 8, JNum 7, JNum 6]"
    by (rule select_pagination [of "Query ''users''" tenUsers "''users''",
          THEN conjunct2, THEN conjunct2, THEN conjunct2, THEN conjunct2, THEN spec, THEN mp])
  let ?q2 = "offset 8 (Query ''users'')"
  have "take_q ?q2 = None \<and> 0 \<le> skip_q ?q2"
    by (simp add: offset_def Query_def)
  then have "select tenUsers ?q2 =
      drop (nat (skip_q ?q2)) (filterOrder ?q2 (filterWhere ?q2 (all tenUsers ?q2)))"
    by (rule select_pagination [of ?q2 tenUsers "''users''",
          THEN conjunct2, THEN conjunct2, THEN conjunct2, THEN conjunct1, THEN mp])
  then have 2: "select tenUsers ?q2 = [[(''id'', JNum 9)], [(''id'', JNum 10)]]"
    by (simp add: a filterOrder_def filterWhere_def isEmpty_def offset_def Query_def)
  let ?q3 = "offset 1 (limit 2 (Query ''users''))"
  have "take_q ?q3 = Some 2 \<and> 0 \<le> skip_q ?q3 \<and> (0::int) \<le> 2"
    by (simp add: offset_def limit_def Query_def)
  then have "select tenUsers ?q3 =
      take (nat 2) (drop (nat (skip_q ?q3)) (filterOrder ?q3 (filterWhere ?q3 (all tenUsers ?q3))))"
    by (rule select_pagination [of ?q3 tenUsers "''users''",
          THEN conjunct2, THEN conjunct2, THEN conjunct1, THEN spec, THEN mp])
  then have 3: "select tenUsers ?q3 = [[(''id'', JNum 2)], [(''id'', JNum 3)]]"
    by (simp add: a filterOrder_def filterWhere_def isEmpty_def offset_def limit_def Query_def)
  from 1 2 3 show ?thesis by simp
qed


text \<open>The ids 7, 6, 5 are not what the query of C3 returns on a store with the ids 1 to
  10: descending order is 10, 9, 8, ..., and skipping two leaves 8, 7, 6.\<close>

theorem select_pagination_counterexample:
  "map (\<lambda>m. getProp m ''id'')
     (select tenUsers (offset 2 (limit 3 (orderBy_q (OrderField ''id'') Desc (Query ''users'')))))
   \<noteq> [JNum 7, JNum 6, JNum 5]"
proof -
  let ?q = "offset 2 (limit 3 (orderBy_q (OrderField ''id'') Desc (Query ''users'')))"
  have a: "all tenUsers q =
      map (\<lambda>n. [(''id'', JNum n)]) [1, 2, 3, 4, 5, 6, 7, 8, 9, 10]" if "entity q = ''users''" for q
    using that
    by (simp add: all_def hydrate_def conn_get_def tenUsers_def sampleDatabase_def sampleModel_def)
  have "select tenUsers ?q = [[(''id'', JNum 8)], [(''id'', JNum 7)], [(''id'', JNum 6)]]"
    by (simp add: select_def a filterWhere_def filterOrder_def filterLimit_def isEmpty_def
        orderBy_def slice_def relativeIndex_def getProp_def Let_def
        offset_def limit_def orderBy_q_def Query_def)
  then show ?thesis by (simp add: getProp_def)
qed

section \<open>Finding by primary key\<close>

lemma arrayIncludes_scalars:
  "list_all (\<lambda>i. \<not> isObject i) ids \<Longrightarrow> arrayIncludes ids v = (v \<in> set ids)"
  by (auto simp: arrayIncludes_mem list_all_iff)

lemma get_no_eagerLoad: "eagerLoad q = [] \<Longrightarrow> get db q = Inr (select db q)"
  by (simp add: get_def eagerLoadRelations_def Let_def)

text \<open>C4: on a query as constructed, for a model with a single primary key, \<^verbatim>\<open>find\<close> with a
  list of ids (strings or numbers) returns a collection, never an error, and the
  collection holds exactly the models whose primary key is an item of the list: an id
  with no record contributes nothing.\<close>

theorem find_many:
  assumes key: "getKeyName (models db e) = KeySingle k"
    and scalars: "list_all (\<lambda>i. \<not> isObject i) ids"
  shows "find_q db (JArr ids) (Query e) =
     (Inr (Collection (filter (\<lambda>m. getProp m k \<in> set ids) (all db (Query e)))),
      whereId db (JArr ids) (Query e))"
proof -
  let ?q = "whereId db (JArr ids) (Query e)"
  let ?w = "\<lparr>w_field = FieldName k, w_value = Value (JArr ids), w_boolean = And\<rparr>"
  have q: "?q = (Query e)\<lparr>wheres := [?w]\<rparr>"
    using key by (simp add: whereId_def where_q_def Query_def)
  have cmp: "getWhereComparator ?q m = (getProp m k \<in> set ids)" for m
    unfolding q using scalars
    by (simp add: getWhereComparator_groups andGroup_def orGroup_def Query_def
        whereComparator_def arrayIncludes_scalars)
  have "getWhereComparator ?q = (\<lambda>m. getProp m k \<in> set ids)"
    by (rule ext) (rule cmp)
  moreover have "wheres ?q \<noteq> []"
    unfolding q by simp
  ultimately have fw: "filterWhere ?q ms = filter (\<lambda>m. getProp m k \<in> set ids) ms" for ms
    by (simp add: filterWhere_def isEmpty_def Let_def)
  have a: "all db ?q = all db (Query e)"
    by (rule all_entity) (simp add: q)
  have rest: "orders ?q = []" "take_q ?q = None" "skip_q ?q = 0" "eagerLoad ?q = []"
    unfolding q by (simp_all add: Query_def)
  have sel: "select db ?q = filter (\<lambda>m. getProp m k \<in> set ids) (all db (Query e))"
    by (simp add: select_def fw a rest filterOrder_def filterLimit_def sliceFrom_def
        relativeIndex_def)
  have "get db ?q = Inr (select db ?q)"
    by (rule get_no_eagerLoad) (rule rest)
  with sel show ?thesis
    by (simp add: find_q_def findIn_def Let_def)
qed

text \<open>\<^verbatim>\<open>find([1, 2, 999])\<close> on a store with the ids 1 and 2.\<close>

theorem find_many_witness:
  "find_q twoUsers (JArr [JNum 1, JNum 2, JNum 999]) (Query ''users'') =
     (Inr (Collection [[(''id'', JNum 1), (''name'', JStr ''John'')],
                       [(''id'', JNum 2), (''name'', JStr ''Jane'')]]),
      whereId twoUsers (JArr [JNum 1, JNum 2, JNum 999]) (Query ''users''))"
proof -
  have key: "getKeyName (models twoUsers ''users'') = KeySingle ''id''"
    by (simp add: twoUsers_def sampleDatabase_def sampleModel_def)
  have scalars: "list_all (\<lambda>i. \<not> isObject i) [JNum 1, JNum 2, JNum 999]"
    by simp
  have a: "all twoUsers (Query ''users'') =
      [[(''id'', JNum 1), (''name'', JStr ''John'')], [(''id'', JNum 2), (''name'', JStr ''Jane'')]]"
    by (simp add: all_def hydrate_def conn_get_def twoUsers_def sampleDatabase_def sampleModel_def
        Query_def)
  show ?thesis
    using find_many [OF key scalars] by (simp add: a getProp_def)
qed

section \<open>Saving elements\<close>

lemma setProp_fresh: "key \<notin> fst ` set obj \<Longrightarrow> setProp obj key v = obj @ [(key, v)]"
  by (induction obj) (auto simp: setProp_def)

lemma map_of_setProp: "map_of (setProp obj key v) = (map_of obj)(key \<mapsto> v)"
  by (simp add: setProp_def update_conv')

lemma fold_setProp_fresh:
  "distinct (map fst xs) \<Longrightarrow> fst ` set xs \<inter> fst ` set acc = {} \<Longrightarrow>
   fold (\<lambda>(i, r) acc. setProp acc i (g i r)) xs acc = acc @ map (\<lambda>(i, r). (i, g i r)) xs"
proof (induction xs arbitrary: acc)
  case Nil
  then show ?case by simp
next
  case (Cons x xs)
  obtain i r where x: "x = (i, r)" by (cases x)
  from Cons.prems x have fresh: "i \<notin> fst ` set acc" by auto
  from Cons.prems x have d: "distinct (map fst xs)"
    and disj: "fst ` set xs \<inter> fst ` set (acc @ [(i, g i r)]) = {}"
    by (auto simp: image_iff)
  show ?case
    using Cons.IH [OF d disj] by (simp add: x setProp_fresh [OF fresh])
qed

lemma map_of_fold_setProp:
  "map_of (fold (\<lambda>(i, r) acc. setProp acc i r) xs acc) = map_of acc ++ map_of (rev xs)"
proof (induction xs arbitrary: acc)
  case Nil
  then show ?case by simp
next
  case (Cons x xs)
  obtain i r where x: "x = (i, r)" by (cases x)
  show ?case
    by (simp add: x Cons.IH map_of_setProp) (rule ext, simp add: map_add_def split: option.splits)
qed

lemma map_of_rev_distinct: "distinct (map fst xs) \<Longrightarrow> map_of (rev xs) = map_of xs"
proof (induction xs)
  case Nil
  then show ?case by simp
next
  case (Cons x xs)
  obtain i r where x: "x = (i, r)" by (cases x)
  from Cons.prems x have "i \<notin> fst ` set xs" and d: "distinct (map fst xs)" by auto
  then have "map_of xs i = None" by (simp add: map_of_eq_None_iff)
  with Cons.IH [OF d] show ?case
    by (simp add: x) (rule ext, simp add: map_add_def split: option.splits)
qed

lemma getProp_spread:
  assumes "distinct (map fst record)"
  shows "getProp (spread existing record) f =
     (if f \<in> fst ` set record then getProp record f else getProp existing f)"
proof -
  have "map_of (spread existing record) = map_of existing ++ map_of record"
    using assms by (simp add: spread_def map_of_fold_setProp map_of_rev_distinct)
  moreover have "(map_of record f = None) = (f \<notin> fst ` set record)"
    by (simp add: map_of_eq_None_iff)
  ultimately show ?thesis
    by (auto simp: getProp_def map_add_def split: option.splits)
qed

lemma saveElements_newData:
  assumes "distinct (map fst elems)"
  shows "saveElements db elems q =
     conn_save db (entity q) (map (\<lambda>(i, record). (i, persisted db q i record)) elems)"
proof -
  have "fold (\<lambda>(i, record) newData.
            setProp newData i
              (case map_of (conn_get db (entity q)) i of
                 Some ex \<Rightarrow> getAttributes (models db (entity q)) (hydrate db q (spread ex record))
               | None \<Rightarrow> getAttributes (models db (entity q)) (hydrate db q record)))
          elems []
      = fold (\<lambda>(i, record) newData. setProp newData i (persisted db q i record)) elems []"
    by (rule arg_cong [where f = "\<lambda>f. fold f elems []"])
       (auto simp: persisted_def conn_find_def conn_get_def fun_eq_iff split: option.splits)
  also have "\<dots> = [] @ map (\<lambda>(i, record). (i, persisted db q i record)) elems"
    using assms by (intro fold_setProp_fresh) simp_all
  finally show ?thesis
    by (simp add: saveElements_def Let_def data_def)
qed

lemma conn_find_conn_save:
  "distinct (map fst records) \<Longrightarrow>
   conn_find (conn_save db e records) e i =
     (case map_of records i of Some r \<Rightarrow> Some r | None \<Rightarrow> conn_find db e i)"
  by (simp add: conn_find_def conn_save_def map_of_fold_setProp map_of_rev_distinct map_add_def
      split: option.splits)

text \<open>C5: for an element map (an object: its ids are distinct) \<open>saveElements\<close> makes one
  \<open>conn_save\<close> call with, for every incoming element, the attributes of the hydrated
  merge of the existing record and the incoming one when the id is in the store, and of
  the hydrated incoming record otherwise. Afterwards the store holds exactly that for
  the incoming ids and what it held before for the others. In the merge the incoming
  fields win and the other fields of the existing record stay.\<close>

theorem saveElements_merge:
  "(distinct (map fst elems) \<longrightarrow>
      saveElements db elems q =
        conn_save db (entity q) (map (\<lambda>(i, record). (i, persisted db q i record)) elems)) \<and>
   (distinct (map fst elems) \<longrightarrow>
      (\<forall>i. conn_find (saveElements db elems q) (entity q) i =
         (case map_of elems i of
            Some record \<Rightarrow> Some (persisted db q i record)
          | None \<Rightarrow> conn_find db (entity q) i))) \<and>
   (\<forall>existing record f. distinct (map fst record) \<longrightarrow>
      getProp (spread existing record) f =
        (if f \<in> fst ` set record then getProp record f else getProp existing f))"
proof (intro conjI impI allI)
  assume d: "distinct (map fst elems)"
  show "saveElements db elems q =
      conn_save db (entity q) (map (\<lambda>(i, record). (i, persisted db q i record)) elems)"
    by (rule saveElements_newData [OF d])
next
  fix i
  assume d: "distinct (map fst elems)"
  let ?new = "map (\<lambda>(i, record). (i, persisted db q i record)) elems"
  have fst_new: "map fst ?new = map fst elems"
    by (induction elems) auto
  have dn: "distinct (map fst ?new)"
    using d by (simp only: fst_new)
  have mo: "map_of ?new i = map_option (persisted db q i) (map_of elems i)"
    by (induction elems) auto
  have "conn_find (conn_save db (entity q) ?new) (entity q) i =
      (case map_of ?new i of Some r \<Rightarrow> Some r | None \<Rightarrow> conn_find db (entity q) i)"
    by (rule conn_find_conn_save [OF dn])
  then show "conn_find (saveElements db elems q) (entity q) i =
      (case map_of elems i of
         Some record \<Rightarrow> Some (persisted db q i record)
       | None \<Rightarrow> conn_find db (entity q) i)"
    by (simp add: saveElements_newData [OF d] mo split: option.splits)
next
  fix existing incoming :: element and f
  assume "distinct (map fst incoming)"
  then show "getProp (spread existing incoming) f =
      (if f \<in> fst ` set incoming then getProp incoming f else getProp existing f)"
    by (rule getProp_spread)
qed

text \<open>The example of section 8: the store holds \<^verbatim>\<open>{id: 1, a: 1, b: 2}\<close>, the incoming
  element is \<^verbatim>\<open>{id: 1, b: 3}\<close>, and \<^verbatim>\<open>{id: 1, a: 1, b: 3}\<close> is persisted; an element
  with the new id 2 is persisted as it comes.\<close>

theorem saveElements_merge_witness:
  "conn_find
     (saveElements abItems [(''1'', [(''id'', JNum 1), (''b'', JNum 3)])] (Query ''items''))
     ''items'' ''1''
   = Some [(''id'', JNum 1), (''a'', JNum 1), (''b'', JNum 3)] \<and>
   conn_find
     (saveElements abItems [(''2'', [(''id'', JNum 2), (''a'', JNum 5), (''b'', JNum 6)])]
        (Query ''items''))
     ''items'' ''2''
   = Some [(''id'', JNum 2), (''a'', JNum 5), (''b'', JNum 6)] \<and>
   getProp (spread [(''id'', JNum 1), (''a'', JNum 1), (''b'', JNum 2)]
                   [(''id'', JNum 1), (''b'', JNum 3)]) ''a'' = JNum 1"
proof -
  let ?in1 = "[(''1'', [(''id'', JNum 1), (''b'', JNum 3)])]"
  let ?in2 = "[(''2'', [(''id'', JNum 2), (''a'', JNum 5), (''b'', JNum 6)])]"
  have e: "entity (Query ''items'') = ''items''" by (simp add: Query_def)
  have p1: "persisted abItems (Query ''items'') ''1'' [(''id'', JNum 1), (''b'', JNum 3)]
      = [(''id'', JNum 1), (''a'', JNum 1), (''b'', JNum 3)]"
    by (simp add: persisted_def conn_find_def hydrate_def abItems_def sampleDatabase_def
        sampleModel_def spread_def setProp_def Query_def)
  have p2: "persisted abItems (Query ''items'') ''2'' [(''id'', JNum 2), (''a'', JNum 5), (''b'', JNum 6)]
      = [(''id'', JNum 2), (''a'', JNum 5), (''b'', JNum 6)]"
    by (simp add: persisted_def conn_find_def hydrate_def abItems_def sampleDatabase_def
        sampleModel_def spread_def setProp_def Query_def)
  have 1: "conn_find (saveElements abItems ?in1 (Query ''items'')) ''items'' ''1''
      = Some [(''id'', JNum 1), (''a'', JNum 1), (''b'', JNum 3)]"
    using saveElements_merge [of ?in1 abItems "Query ''items''", THEN conjunct2, THEN conjunct1]
    by (simp add: e p1)
  have 2: "conn_find (saveElements abItems ?in2 (Query ''items'')) ''items'' ''2''
      = Some [(''id'', JNum 2), (''a'', JNum 5), (''b'', JNum 6)]"
    using saveElements_merge [of ?in2 abItems "Query ''items''", THEN conjunct2, THEN conjunct1]
    by (simp add: e p2)
  have 3: "getProp (spread [(''id'', JNum 1), (''a'', JNum 1), (''b'', JNum 2)]
                   [(''id'', JNum 1), (''b'', JNum 3)]) ''a'' = JNum 1"
    using saveElements_merge [of ?in1 abItems "Query ''items''", THEN conjunct2, THEN conjunct2,
        THEN spec, THEN spec, THEN spec,
        of "[(''id'', JNum 1), (''b'', JNum 3)]" "[(''id'', JNum 1), (''a'', JNum 1), (''b'', JNum 2)]" "''a''"]
    by (simp add: getProp_def)
  from 1 2 3 show ?thesis by simp
qed

section \<open>Destroying by id\<close>

text \<open>C6: on a model with a composite primary key \<open>destroy\<close>, given one id or a list of
  ids, raises the error whose message sends the caller to \<^verbatim>\<open>delete\<close>; the query and the
  store are as they were before the call.\<close>

theorem destroy_composite_key:
  assumes "hasCompositeKey (models db (entity q))"
  shows "destroy db ids q = (Inl (Error destroyMessage), q, db) \<and>
    last destroyMessage = ''Please use `delete` method instead.''"
  using assms by (simp add: destroy_def assert_def destroyMessage_def)

theorem destroy_composite_key_witness:
  "destroy compositeDb (JNum 1) (Query ''roles'') =
     (Inl (Error destroyMessage), Query ''roles'', compositeDb) \<and>
   destroy compositeDb (JArr [JNum 1, JNum 2]) (Query ''roles'') =
     (Inl (Error destroyMessage), Query ''roles'', compositeDb) \<and>
   store compositeDb ''roles'' = [(''[1,2]'', [(''user_id'', JNum 1), (''role_id'', JNum 2)])]"
proof -
  have c: "hasCompositeKey (models compositeDb (entity (Query ''roles'')))"
    by (simp add: compositeDb_def sampleDatabase_def sampleModel_def Query_def)
  show ?thesis
    using destroy_composite_key [OF c, of "JNum 1"]
      destroy_composite_key [OF c, of "JArr [JNum 1, JNum 2]"]
    by (simp add: compositeDb_def sampleDatabase_def)
qed

section \<open>Revival from a schema\<close>

lemma blog_data [simp]:
  "models blog ''posts'' = sampleModel
           [(''id'', Attribute), (''user_id'', Attribute),
            (''author'', Relation (belongsTo ''users'' ''user_id'' ''id'')),
            (''comments'', Relation (hasMany ''comments'' ''post_id'' ''id''))]
           (KeySingle ''id'')"
  "models blog ''comments'' = sampleModel
           [(''id'', Attribute), (''post_id'', Attribute), (''user_id'', Attribute)]
           (KeySingle ''id'')"
  "store blog ''posts'' = [(''1'', [(''id'', JNum 1), (''user_id'', JNum 1)])]"
  "store blog ''comments'' = [(''2'', [(''id'', JNum 2), (''post_id'', JNum 1), (''user_id'', JNum 1)])]"
  by (simp_all add: blog_def sampleDatabase_def)

text \<open>C7 fails on the code. The schema element \<^verbatim>\<open>{id: 1, author: null, comments: [{id: 2}]}\<close>
  of a post whose fields \<^verbatim>\<open>author\<close> and \<^verbatim>\<open>comments\<close> are relations: \<open>reviveRelations\<close>
  returns at the \<^verbatim>\<open>null\<close> author, and the comments, which come after it, are not revived.
  With the two fields in the other order the comments are revived.\<close>

theorem reviveOne_null_relation:
  "reviveOne blog (Query ''posts'')
     (JObj [(''id'', JNum 1), (''author'', JNull), (''comments'', JArr [JObj [(''id'', JNum 2)]])])
   = Some [(''id'', JNum 1), (''user_id'', JNum 1)] \<and>
   reviveOne blog (Query ''posts'')
     (JObj [(''id'', JNum 1), (''comments'', JArr [JObj [(''id'', JNum 2)]]), (''author'', JNull)])
   = Some [(''id'', JNum 1), (''user_id'', JNum 1),
           (''comments'', JArr [JObj [(''id'', JNum 2), (''post_id'', JNum 1), (''user_id'', JNum 1)]])]"
  by (simp add: Query_def conn_find_def hydrate_def sampleModel_def getProp_def setProp_def
      newQueryForRelation_def hasMany_def belongsTo_def pickMany_def)

section \<open>Recursive eager loading\<close>

lemma fold_with_q_eagerLoad:
  "map_of (eagerLoad
      (fold (\<lambda>(name, a) q'. if isRelation a then with_q name c q' else q') fs q)) n =
     (if n \<in> fst ` set (filter (\<lambda>(name, a). isRelation a) fs) then Some c
      else map_of (eagerLoad q) n)"
proof (induction fs arbitrary: q)
  case Nil
  then show ?case by simp
next
  case (Cons f fs)
  obtain name a where f: "f = (name, a)" by (cases f)
  show ?case
    by (simp add: f Cons.IH with_q_def map_of_setProp)
qed

lemma fold_with_q_frame:
  "(fold (\<lambda>(name, a) q'. if isRelation a then with_q name c q' else q') fs q)\<lparr>eagerLoad := el\<rparr>
     = q\<lparr>eagerLoad := el\<rparr>"
proof (induction fs arbitrary: q)
  case Nil
  then show ?case by simp
next
  case (Cons f fs)
  obtain name a where f: "f = (name, a)" by (cases f)
  show ?case
    by (simp add: f Cons.IH with_q_def)
qed

text \<open>C8: \<open>withAllRecursive db depth\<close> registers, for every relation field of the model, the
  constraint built around \<open>depth\<close>, and changes nothing else of the query. Run on a
  sub-query, that constraint calls \<open>withAllRecursive\<close> with \<open>depth - 1\<close> when \<open>depth\<close> is
  positive; at depth 0 (or below) it leaves the sub-query as it is, so nothing more is
  registered.\<close>

theorem withAllRecursive_levels:
  "(\<forall>n. map_of (eagerLoad (withAllRecursive db depth q)) n =
      (if n \<in> relationNames (models db (entity q)) then Some (RecursiveConstraint depth)
       else map_of (eagerLoad q) n)) \<and>
   (withAllRecursive db depth q)\<lparr>eagerLoad := eagerLoad q\<rparr> = q \<and>
   (0 < depth \<longrightarrow>
      applyConstraint db (RecursiveConstraint depth) sub = withAllRecursive db (depth - 1) sub) \<and>
   (depth \<le> 0 \<longrightarrow> applyConstraint db (RecursiveConstraint depth) sub = sub)"
  by (simp add: withAllRecursive_def withAll_def fold_with_q_eagerLoad fold_with_q_frame
      relationNames_def applyConstraint_def)

theorem withAllRecursive_levels_witness:
  "eagerLoad (withAllRecursive blog 1 (Query ''users'')) =
     [(''posts'', RecursiveConstraint 1), (''comments'', RecursiveConstraint 1)] \<and>
   eagerLoad (applyConstraint blog (RecursiveConstraint 1) (Query ''posts'')) =
     [(''author'', RecursiveConstraint 0), (''comments'', RecursiveConstraint 0)] \<and>
   applyConstraint blog (RecursiveConstraint 0) (Query ''users'') = Query ''users''"
proof -
  have 1: "eagerLoad (withAllRecursive blog 1 (Query ''users'')) =
     [(''posts'', RecursiveConstraint 1), (''comments'', RecursiveConstraint 1)]"
    by (simp add: withAllRecursive_def withAll_def with_q_def setProp_def Query_def
        sampleModel_def blog_def sampleDatabase_def)
  have "applyConstraint blog (RecursiveConstraint 1) (Query ''posts'')
      = withAllRecursive blog (1 - 1) (Query ''posts'')"
    using withAllRecursive_levels [of blog 1 "Query ''users''" "Query ''posts''"] by simp
  then have 2: "eagerLoad (applyConstraint blog (RecursiveConstraint 1) (Query ''posts'')) =
     [(''author'', RecursiveConstraint 0), (''comments'', RecursiveConstraint 0)]"
    by (simp add: withAllRecursive_def withAll_def with_q_def setProp_def Query_def
        sampleModel_def)
  have 3: "applyConstraint blog (RecursiveConstraint 0) (Query ''users'') = Query ''users''"
    using withAllRecursive_levels [of blog 0 "Query ''users''" "Query ''users''"] by simp
  from 1 2 3 show ?thesis by simp
qed

section \<open>The query state after a terminal call\<close>

lemma snd_first: "snd (first db q) = limit 1 q"
  by (simp add: first_def Let_def)

lemma snd_find_q:
  "snd (find_q db ids q) = (if isArray ids then whereId db ids q else limit 1 (whereId db ids q))"
  by (simp add: find_q_def findIn_def Let_def snd_first split: prod.splits)
     (metis snd_first snd_conv)

lemma query_of_destroyOne: "fst (snd (destroyOne db i q)) = snd (find_q db i q)"
  by (cases "find_q db i q") (auto simp: destroyOne_def split: sum.splits found.splits option.splits)

lemma query_of_destroyMany: "fst (snd (destroyMany db ids q)) = snd (find_q db ids q)"
  by (cases "find_q db ids q") (auto simp: destroyMany_def split: sum.splits found.splits)

lemma query_of_destroy:
  "fst (snd (destroy db ids q)) =
     (if hasCompositeKey (models db (entity q)) then q else snd (find_q db ids q))"
proof (cases "hasCompositeKey (models db (entity q))")
  case True
  then show ?thesis by (simp add: destroy_def assert_def)
next
  case False
  show ?thesis
  proof (cases "isArray ids")
    case True
    obtain r q' db' where d: "destroyMany db ids q = (r, q', db')" by (cases "destroyMany db ids q")
    with query_of_destroyMany [of db ids q] have "q' = snd (find_q db ids q)" by simp
    with False True d show ?thesis by (simp add: destroy_def assert_def)
  next
    case notArray: False
    obtain r q' db' where d: "destroyOne db ids q = (r, q', db')" by (cases "destroyOne db ids q")
    with query_of_destroyOne [of db ids q] have "q' = snd (find_q db ids q)" by simp
    with False notArray d show ?thesis by (simp add: destroy_def assert_def)
  qed
qed

text \<open>C9, as amended: the terminal calls \<open>first\<close>, \<open>find_q\<close> and \<open>destroy\<close> call chain methods
  on the query itself. \<open>first\<close> sets the limit to 1; \<open>find_q\<close> appends the where clause on
  the primary key and, for a single id, sets the limit to 1; \<open>destroy\<close> leaves the query
  as \<open>find_q\<close> does, and as it was when the key is composite. The earlier where clauses,
  the order directives, the offset and the eager-load map stay as they were.\<close>

theorem terminal_calls_state:
  "snd (first db q) = q\<lparr>take_q := Some 1\<rparr> \<and>
   snd (find_q db ids q) =
     (if isArray ids then q\<lparr>wheres := wheres q @ [keyClause db ids q]\<rparr>
      else q\<lparr>wheres := wheres q @ [keyClause db ids q], take_q := Some 1\<rparr>) \<and>
   fst (snd (destroy db ids q)) =
     (if hasCompositeKey (models db (entity q)) then q else snd (find_q db ids q))"
  by (simp add: snd_first snd_find_q query_of_destroy limit_def whereId_def where_q_def
      keyClause_def)

theorem terminal_calls_state_witness:
  "snd (first twoUsers (Query ''users'')) = (Query ''users'')\<lparr>take_q := Some 1\<rparr> \<and>
   wheres (snd (find_q twoUsers (JNum 1) (Query ''users''))) =
     [\<lparr>w_field = FieldName ''id'', w_value = Value (JNum 1), w_boolean = And\<rparr>] \<and>
   take_q (snd (find_q twoUsers (JNum 1) (Query ''users''))) = Some 1 \<and>
   take_q (snd (find_q twoUsers (JArr [JNum 1]) (Query ''users''))) = None \<and>
   fst (snd (destroy twoUsers (JNum 1) (Query ''users''))) =
     snd (find_q twoUsers (JNum 1) (Query ''users'')) \<and>
   fst (snd (destroy compositeDb (JNum 1) (Query ''roles''))) = Query ''roles''"
  using terminal_calls_state [of twoUsers "Query ''users''" "JNum 1"]
    terminal_calls_state [of twoUsers "Query ''users''" "JArr [JNum 1]"]
    terminal_calls_state [of compositeDb "Query ''roles''" "JNum 1"]
  by (simp add: keyClause_def Query_def twoUsers_def compositeDb_def sampleDatabase_def
      sampleModel_def)

text \<open>The state is not left unchanged: after \<open>first\<close>, \<open>find_q\<close> with an id or \<open>destroy\<close> with
  an id on a new query, the limit is 1.\<close>

theorem terminal_calls_state_counterexample:
  "snd (first twoUsers (Query ''users'')) \<noteq> Query ''users'' \<and>
   snd (find_q twoUsers (JNum 1) (Query ''users'')) \<noteq> Query ''users'' \<and>
   fst (snd (destroy twoUsers (JNum 1) (Query ''users''))) \<noteq> Query ''users''"
proof -
  have 1: "take_q (snd (first twoUsers (Query ''users''))) = Some 1"
    by (simp add: snd_first limit_def)
  have 2: "take_q (snd (find_q twoUsers (JNum 1) (Query ''users''))) = Some 1"
    by (simp add: snd_find_q limit_def)
  have k: "\<not> hasCompositeKey (models twoUsers (entity (Query ''users'')))"
    by (simp add: Query_def twoUsers_def sampleDatabase_def sampleModel_def)
  have 3: "take_q (fst (snd (destroy twoUsers (JNum 1) (Query ''users'')))) = Some 1"
    using k by (simp add: query_of_destroy snd_find_q limit_def)
  have "take_q (Query ''users'') = None" by (simp add: Query_def)
  with 1 2 3 show ?thesis by auto
qed

section \<open>Eager loading\<close>

lemma setProp_swap_present:
  "a \<noteq> b \<Longrightarrow> a \<in> fst ` set al \<or> b \<in> fst ` set al \<Longrightarrow>
   setProp (setProp al a x) b y = setProp (setProp al b y) a x"
proof (induction al)
  case Nil
  then show ?case by simp
next
  case (Cons p al)
  obtain k v where p: "p = (k, v)" by (cases p)
  show ?case
  proof (cases "k = a \<or> k = b")
    case True
    with Cons.prems(1) show ?thesis by (auto simp: p setProp_def)
  next
    case False
    with Cons.prems p have "a \<in> fst ` set al \<or> b \<in> fst ` set al" by auto
    from Cons.IH [OF Cons.prems(1) this] False show ?thesis
      by (simp add: p setProp_def)
  qed
qed

lemma eagerLoadEach_append:
  "eagerLoadEach db q (xs @ ys) ms =
     (case eagerLoadEach db q xs ms of Inl err \<Rightarrow> Inl err | Inr ms' \<Rightarrow> eagerLoadEach db q ys ms')"
proof (induction xs arbitrary: ms)
  case Nil
  then show ?case by simp
next
  case (Cons x xs)
  obtain name c where x: "x = (name, c)" by (cases x)
  show ?case by (simp add: x Cons.IH split: sum.splits)
qed

lemma eagerLoadRelation_entity:
  "entity q = entity q' \<Longrightarrow> eagerLoadRelation db q = eagerLoadRelation db q'"
  by (rule ext)+ (simp add: eagerLoadRelation_def)

lemma eagerLoadEach_entity:
  "entity q = entity q' \<Longrightarrow> eagerLoadEach db q xs ms = eagerLoadEach db q' xs ms"
proof (induction xs arbitrary: ms)
  case Nil
  then show ?case by simp
next
  case (Cons x xs)
  obtain name c where x: "x = (name, c)" by (cases x)
  from Cons.prems have "eagerLoadRelation db q = eagerLoadRelation db q'"
    by (rule eagerLoadRelation_entity)
  with Cons show ?case by (simp add: x split: sum.splits)
qed

lemma filterWhere_frame: "wheres q = wheres q' \<Longrightarrow> filterWhere q ms = filterWhere q' ms"
  by (simp add: filterWhere_def getWhereComparator_def)

lemma filterOrder_frame: "orders q = orders q' \<Longrightarrow> filterOrder q ms = filterOrder q' ms"
  by (simp add: filterOrder_def)

lemma filterLimit_frame:
  "take_q q = take_q q' \<Longrightarrow> skip_q q = skip_q q' \<Longrightarrow> filterLimit q ms = filterLimit q' ms"
  by (simp add: filterLimit_def split: option.splits)

lemma select_frame:
  assumes "entity q = entity q'" "wheres q = wheres q'" "orders q = orders q'"
    "take_q q = take_q q'" "skip_q q = skip_q q'"
  shows "select db q = select db q'"
proof -
  have "all db q = all db q'"
    using assms(1) by (rule all_entity)
  then show ?thesis
    using filterWhere_frame [OF assms(2)] filterOrder_frame [OF assms(3)]
      filterLimit_frame [OF assms(4) assms(5)]
    by (simp add: select_def)
qed

text \<open>C10: for two distinct relation names of the model, \<open>get\<close> after \<open>with_q a\<close> then
  \<open>with_q b\<close> and \<open>get\<close> after \<open>with_q b\<close> then \<open>with_q a\<close> give the same result: the same
  models in the same order, each with the same properties (compared as maps: the two
  relation attributes may have been added in the other order). The relations are
  parameters, read as section 4.4 describes them: matching sets the relation attribute
  of every parent to a value found from the parent and the eager set, and neither that
  value nor the eager constraints of one relation depend on the attribute of the other.\<close>

theorem eagerLoad_order_independent:
  assumes ab: "a \<noteq> b"
    and relA: "getRelation (models db (entity q)) a = Inr ra"
    and relB: "getRelation (models db (entity q)) b = Inr rb"
    and matchA: "\<And>name ms es. match ra name ms es = map (\<lambda>m. setProp m name (pickA m es)) ms"
    and matchB: "\<And>name ms es. match rb name ms es = map (\<lambda>m. setProp m name (pickB m es)) ms"
    and pickA: "\<And>m v es. pickA (setProp m b v) es = pickA m es"
    and pickB: "\<And>m v es. pickB (setProp m a v) es = pickB m es"
    and constrA: "\<And>sub ms f.
      addEagerConstraints ra sub (map (\<lambda>m. setProp m b (f m)) ms) = addEagerConstraints ra sub ms"
    and constrB: "\<And>sub ms f.
      addEagerConstraints rb sub (map (\<lambda>m. setProp m a (f m)) ms) = addEagerConstraints rb sub ms"
  shows "map_sum id (map map_of) (get db (with_q b cb (with_q a ca q))) =
         map_sum id (map map_of) (get db (with_q a ca (with_q b cb q)))"
proof -
  let ?q1 = "with_q b cb (with_q a ca q)" and ?q2 = "with_q a ca (with_q b cb q)"
  have sel: "select db ?q1 = select db q" "select db ?q2 = select db q"
    by (rule select_frame; simp add: with_q_def)+
  have ent: "entity ?q1 = entity q" "entity ?q2 = entity q"
    by (simp_all add: with_q_def)
  have el: "eagerLoad ?q1 = setProp (setProp (eagerLoad q) a ca) b cb"
    "eagerLoad ?q2 = setProp (setProp (eagerLoad q) b cb) a ca"
    by (simp_all add: with_q_def)
  define esA where "esA ms =
    getEager ra (store db) (applyConstraint db ca (addEagerConstraints ra (newQueryForRelation ra) ms))"
    for ms
  define esB where "esB ms =
    getEager rb (store db) (applyConstraint db cb (addEagerConstraints rb (newQueryForRelation rb) ms))"
    for ms
  have stepA: "eagerLoadRelation db q ms a ca = Inr (map (\<lambda>m. setProp m a (pickA m (esA ms))) ms)" for ms
    by (simp add: eagerLoadRelation_def relA matchA esA_def)
  have stepB: "eagerLoadRelation db q ms b cb = Inr (map (\<lambda>m. setProp m b (pickB m (esB ms))) ms)" for ms
    by (simp add: eagerLoadRelation_def relB matchB esB_def)
  have esA_frame: "esA (map (\<lambda>m. setProp m b (f m)) ms) = esA ms" for f ms
    by (simp add: esA_def constrA)
  have esB_frame: "esB (map (\<lambda>m. setProp m a (f m)) ms) = esB ms" for f ms
    by (simp add: esB_def constrB)
  have ab_then: "eagerLoadEach db q [(a, ca), (b, cb)] ms =
      Inr (map (\<lambda>m. setProp (setProp m a (pickA m (esA ms))) b (pickB m (esB ms))) ms)" for ms
    by (simp add: stepA stepB esB_frame pickB comp_def)
  have ba_then: "eagerLoadEach db q [(b, cb), (a, ca)] ms =
      Inr (map (\<lambda>m. setProp (setProp m b (pickB m (esB ms))) a (pickA m (esA ms))) ms)" for ms
    by (simp add: stepA stepB esA_frame pickA comp_def)
  have twist: "map_of (setProp (setProp m a x) b y) = map_of (setProp (setProp m b y) a x)" for m x y
    using ab by (simp add: map_of_setProp fun_upd_twist)
  have pair: "map_sum id (map map_of) (eagerLoadEach db q [(a, ca), (b, cb)] ms) =
      map_sum id (map map_of) (eagerLoadEach db q [(b, cb), (a, ca)] ms)" for ms
    unfolding ab_then ba_then by (simp add: twist)
  have each: "map_sum id (map map_of) (eagerLoadEach db q (eagerLoad ?q1) ms) =
      map_sum id (map map_of) (eagerLoadEach db q (eagerLoad ?q2) ms)" for ms
  proof (cases "a \<in> fst ` set (eagerLoad q) \<or> b \<in> fst ` set (eagerLoad q)")
    case True
    from setProp_swap_present [OF ab True] show ?thesis by (simp add: el)
  next
    case False
    then have fa: "a \<notin> fst ` set (eagerLoad q)" and fb: "b \<notin> fst ` set (eagerLoad q)" by auto
    from fa fb ab have fb': "b \<notin> fst ` set (eagerLoad q @ [(a, ca)])"
      and fa': "a \<notin> fst ` set (eagerLoad q @ [(b, cb)])" by auto
    have 1: "eagerLoad ?q1 = eagerLoad q @ [(a, ca), (b, cb)]"
      by (simp add: el setProp_fresh [OF fa] setProp_fresh [OF fb'])
    have 2: "eagerLoad ?q2 = eagerLoad q @ [(b, cb), (a, ca)]"
      by (simp add: el setProp_fresh [OF fb] setProp_fresh [OF fa'])
    show ?thesis
    proof (cases "eagerLoadEach db q (eagerLoad q) ms")
      case (Inl err)
      then show ?thesis by (simp only: 1 2 eagerLoadEach_append sum.case)
    next
      case (Inr ms')
      then show ?thesis by (simp only: 1 2 eagerLoadEach_append sum.case pair)
    qed
  qed
  have "map_sum id (map map_of) (eagerLoadRelations db ?q1 ms) =
      map_sum id (map map_of) (eagerLoadRelations db ?q2 ms)" for ms
    unfolding eagerLoadRelations_def
    using each [of ms] eagerLoadEach_entity [OF ent(1)] eagerLoadEach_entity [OF ent(2)] by simp
  then show ?thesis
    by (simp add: get_def sel Let_def)
qed


lemma getProp_setProp: "getProp (setProp m k v) k' = (if k' = k then v else getProp m k')"
  by (simp add: getProp_def map_of_setProp)

text \<open>\<^verbatim>\<open>with('posts')\<close> and \<^verbatim>\<open>with('comments')\<close> on the users of the sample blog, in both
  orders.\<close>

theorem eagerLoad_order_independent_witness:
  "map_sum id (map map_of)
     (get blog (with_q ''comments'' NoConstraint (with_q ''posts'' NoConstraint (Query ''users''))))
   = map_sum id (map map_of)
     (get blog (with_q ''posts'' NoConstraint (with_q ''comments'' NoConstraint (Query ''users'')))) \<and>
   get blog (with_q ''comments'' NoConstraint (with_q ''posts'' NoConstraint (Query ''users'')))
   = Inr [[(''id'', JNum 1), (''name'', JStr ''John''),
           (''posts'', JArr [JObj [(''id'', JNum 1), (''user_id'', JNum 1)]]),
           (''comments'',
            JArr [JObj [(''id'', JNum 2), (''post_id'', JNum 1), (''user_id'', JNum 1)]])]]"
proof -
  let ?ra = "hasMany ''posts'' ''user_id'' ''id''" and ?rb = "hasMany ''comments'' ''user_id'' ''id''"
  have users: "models blog (entity (Query ''users'')) =
      sampleModel
        [(''id'', Attribute), (''name'', Attribute),
         (''posts'', Relation ?ra), (''comments'', Relation ?rb)]
        (KeySingle ''id'')"
    by (simp add: blog_def sampleDatabase_def Query_def)
  have ab: "''posts'' \<noteq> ''comments''" by simp
  have relA: "getRelation (models blog (entity (Query ''users''))) ''posts'' = Inr ?ra"
    by (simp add: users getRelation_def sampleModel_def)
  have relB: "getRelation (models blog (entity (Query ''users''))) ''comments'' = Inr ?rb"
    by (simp add: users getRelation_def sampleModel_def)
  have matchA: "match ?ra name ms es = map (\<lambda>m. setProp m name (pickMany ''user_id'' ''id'' m es)) ms"
    for name ms es
    by (simp add: hasMany_def)
  have matchB: "match ?rb name ms es = map (\<lambda>m. setProp m name (pickMany ''user_id'' ''id'' m es)) ms"
    for name ms es
    by (simp add: hasMany_def)
  have pickA: "pickMany ''user_id'' ''id'' (setProp m ''comments'' v) es = pickMany ''user_id'' ''id'' m es"
    for m v es
    by (simp add: pickMany_def getProp_setProp)
  have pickB: "pickMany ''user_id'' ''id'' (setProp m ''posts'' v) es = pickMany ''user_id'' ''id'' m es"
    for m v es
    by (simp add: pickMany_def getProp_setProp)
  have constrA: "addEagerConstraints ?ra sub (map (\<lambda>m. setProp m ''comments'' (f m)) ms)
      = addEagerConstraints ?ra sub ms" for sub ms f
    by (simp add: hasMany_def getProp_setProp comp_def)
  have constrB: "addEagerConstraints ?rb sub (map (\<lambda>m. setProp m ''posts'' (f m)) ms)
      = addEagerConstraints ?rb sub ms" for sub ms f
    by (simp add: hasMany_def getProp_setProp comp_def)
  have 1: "map_sum id (map map_of)
     (get blog (with_q ''comments'' NoConstraint (with_q ''posts'' NoConstraint (Query ''users''))))
   = map_sum id (map map_of)
     (get blog (with_q ''posts'' NoConstraint (with_q ''comments'' NoConstraint (Query ''users''))))"
    by (rule eagerLoad_order_independent
          [OF ab relA relB matchA matchB pickA pickB constrA constrB])
  have su: "store blog ''users'' = [(''1'', [(''id'', JNum 1), (''name'', JStr ''John'')])]"
    by (simp add: blog_def sampleDatabase_def)
  have sel: "select blog (with_q ''comments'' NoConstraint (with_q ''posts'' NoConstraint (Query ''users'')))
      = [[(''id'', JNum 1), (''name'', JStr ''John'')]]"
    using users
    by (simp add: select_def all_def hydrate_def conn_get_def with_q_def Query_def filterWhere_def
        filterOrder_def filterLimit_def isEmpty_def sliceFrom_def relativeIndex_def
        su sampleModel_def)
  let ?u = "[(''id'', JNum 1), (''name'', JStr ''John'')]"
  let ?up = "[(''id'', JNum 1), (''name'', JStr ''John''),
           (''posts'', JArr [JObj [(''id'', JNum 1), (''user_id'', JNum 1)]])]"
  let ?q = "with_q ''comments'' NoConstraint (with_q ''posts'' NoConstraint (Query ''users''))"
  have ent: "models blog (entity ?q) = models blog (entity (Query ''users''))"
    by (simp add: with_q_def)
  have el: "eagerLoad ?q = [(''posts'', NoConstraint), (''comments'', NoConstraint)]"
    by (simp add: with_q_def setProp_def Query_def)
  have run_posts: "runOnStore (store blog) (whereIn ''user_id'' [JNum 1] (Query ''posts''))
      = [[(''id'', JNum 1), (''user_id'', JNum 1)]]"
    by (simp add: runOnStore_def whereIn_def Query_def filterWhere_def isEmpty_def
        getWhereComparator_groups andGroup_def orGroup_def whereComparator_def
        arrayIncludes_mem filterOrder_def filterLimit_def sliceFrom_def relativeIndex_def
        getProp_def)
  have run_comments: "runOnStore (store blog) (whereIn ''user_id'' [JNum 1] (Query ''comments''))
      = [[(''id'', JNum 2), (''post_id'', JNum 1), (''user_id'', JNum 1)]]"
    by (simp add: runOnStore_def whereIn_def Query_def filterWhere_def isEmpty_def
        getWhereComparator_groups andGroup_def orGroup_def whereComparator_def
        arrayIncludes_mem filterOrder_def filterLimit_def sliceFrom_def relativeIndex_def
        getProp_def)
  have lA: "eagerLoadRelation blog ?q [?u] ''posts'' NoConstraint = Inr [?up]"
    unfolding eagerLoadRelation_def ent relA
    by (simp add: hasMany_def pickMany_def newQueryForRelation_def applyConstraint_def getProp_def run_posts
        setProp_def strictEquals_def)
  have lB: "eagerLoadRelation blog ?q [?up] ''comments'' NoConstraint
      = Inr [[(''id'', JNum 1), (''name'', JStr ''John''),
           (''posts'', JArr [JObj [(''id'', JNum 1), (''user_id'', JNum 1)]]),
           (''comments'',
            JArr [JObj [(''id'', JNum 2), (''post_id'', JNum 1), (''user_id'', JNum 1)]])]]"
    unfolding eagerLoadRelation_def ent relB
    by (simp add: hasMany_def pickMany_def newQueryForRelation_def applyConstraint_def getProp_def run_comments
        setProp_def strictEquals_def)
  have 2: "get blog ?q
   = Inr [[(''id'', JNum 1), (''name'', JStr ''John''),
           (''posts'', JArr [JObj [(''id'', JNum 1), (''user_id'', JNum 1)]]),
           (''comments'',
            JArr [JObj [(''id'', JNum 2), (''post_id'', JNum 1), (''user_id'', JNum 1)]])]]"
    unfolding get_def sel eagerLoadRelations_def el
    by (simp add: isEmpty_def lA lB)
  from 1 2 show ?thesis by (rule conjI)
qed

end
